theory Spec2Isabelle
  imports Complex_Main "HOL-Library.Log_Nat" "HOL-Library.Multiset" "HOL-Library.Sublist"
    "HOL-Library.Monad_Syntax" "HOL-Library.AList"
begin

section \<open>Numbers\<close>

text \<open>
  Amounts are Python floats in the source: IEEE 754 binary64 numbers. A finite float is
  modelled as the real number it denotes, and every arithmetic operation as the exact
  operation followed by rounding to the nearest float, a tie going to the float whose last
  mantissa bit is even (\<open>fl\<close>). Comparisons, \<^verbatim>\<open>min\<close> and \<^verbatim>\<open>max\<close> are exact. Not modelled:
  the sign of zero, NaN, and overflow to infinity (a result beyond the largest float,
  about \<open>1.8e308\<close>, stays finite in the model).

  \<open>round_half_even\<close> rounds a real to the nearest whole number, a tie going to the even
  one.
\<close>

definition round_half_even :: "real \<Rightarrow> int" where
  "round_half_even x =
     (let f = \<lfloor>x\<rfloor>; d = x - of_int f
      in if d < 1/2 then f else if 1/2 < d then f + 1 else if even f then f else f + 1)"

text \<open>
  The binary exponent of a magnitude \<open>a\<close>: the \<open>e\<close> with \<open>2^e \<le> a < 2^(e + 1)\<close>, but
  never below \<open>-1022\<close>, the exponent shared by all subnormal numbers. It is read off the
  number of bits of \<open>\<lfloor>a * 2^1074\<rfloor>\<close>. Floats of that exponent are the multiples of
  \<open>2^(e - 52)\<close>, the unit in the last place.
\<close>

definition denorm_scale :: real where
  "denorm_scale = 2 ^ 1074"

definition expo :: "real \<Rightarrow> int" where
  "expo a = max (- 1022) (bitlen \<lfloor>a * denorm_scale\<rfloor> - 1075)"

definition ulp :: "real \<Rightarrow> real" where
  "ulp x = 2 powi (expo \<bar>x\<bar> - 52)"

definition fl :: "real \<Rightarrow> real" where
  "fl x = of_int (round_half_even (x / ulp x)) * ulp x"

text \<open>Float \<^verbatim>\<open>+\<close>, \<^verbatim>\<open>-\<close> and \<^verbatim>\<open>*\<close>.\<close>

definition fadd :: "real \<Rightarrow> real \<Rightarrow> real" where
  "fadd x y = fl (x + y)"

definition fsub :: "real \<Rightarrow> real \<Rightarrow> real" where
  "fsub x y = fl (x - y)"

definition fmul :: "real \<Rightarrow> real \<Rightarrow> real" where
  "fmul x y = fl (x * y)"

text \<open>
  \<^verbatim>\<open>round(x, 2)\<close> on a float: the exact value of \<open>x\<close> is rounded to the nearest multiple
  of \<open>0.01\<close>, a tie going to the even neighbour, and the float nearest to that decimal is
  returned.
\<close>

definition py_round2 :: "real \<Rightarrow> real" where
  "py_round2 x = fl (of_int (round_half_even (x * 100)) / 100)"

text \<open>
  \<^verbatim>\<open>sum(xs)\<close> adds from the left, starting from \<open>0\<close>. (From CPython 3.12 on, \<^verbatim>\<open>sum\<close>
  over floats also carries a compensation term, which can change the last bits of a sum
  that is not exact; nothing proved below depends on the value of an inexact sum.)
  \<open>add_chain\<close> is a written chain \<^verbatim>\<open>a + b + c + ...\<close>.
\<close>

definition py_sum :: "real list \<Rightarrow> real" where
  "py_sum xs = foldl fadd 0 xs"

definition add_chain :: "real list \<Rightarrow> real" where
  "add_chain xs = (case xs of [] \<Rightarrow> 0 | x # rest \<Rightarrow> foldl fadd x rest)"

section \<open>Tax computation (mvp\_streamlit\_app.py)\<close>

text \<open>
  A bracket is one dict of the brackets JSON: \<^verbatim>\<open>{"threshold": .., "rate": .., "fixed": ..}\<close>.
  The calculator reads \<^verbatim>\<open>b["threshold"]\<close>, \<^verbatim>\<open>b["rate"]\<close> and \<^verbatim>\<open>b.get("fixed", 0.0)\<close>,
  so \<open>fixed\<close> alone may be absent. The numbers are floats. (A whole number written without
  a decimal point is loaded as an \<^verbatim>\<open>int\<close>; up to \<open>2^53\<close> it behaves as the float of the same
  value.)
\<close>

record bracket =
  threshold :: real
  rate :: real
  fixed :: "real option"

definition fixed_or_zero :: "bracket \<Rightarrow> real" where
  "fixed_or_zero b = (case fixed b of None \<Rightarrow> 0 | Some v \<Rightarrow> v)"

text \<open>
  The body of \<^verbatim>\<open>for i, b in enumerate(brackets)\<close>: the running \<open>tax\<close> is the state,
  \<^verbatim>\<open>brackets[i + 1]\<close> is the head of the tiers still to come, and \<^verbatim>\<open>break\<close> returns the
  running value.
\<close>

fun bracket_loop :: "real \<Rightarrow> real \<Rightarrow> bracket list \<Rightarrow> real" where
  "bracket_loop taxable_income tax [] = tax"
| "bracket_loop taxable_income tax (b # rest) =
     (if taxable_income > threshold b then
        let upper = (case rest of [] \<Rightarrow> taxable_income
                                | nb # _ \<Rightarrow> min taxable_income (threshold nb));
            taxable_slice = max 0 (fsub upper (threshold b))
        in bracket_loop taxable_income
             (fadd (fixed_or_zero b) (fmul taxable_slice (rate b))) rest
      else tax)"

text \<open>
  The value the body assigns to \<open>tax\<close> at tier \<open>b\<close>, as a function of \<open>upper\<close>.
\<close>

definition tier_tax :: "bracket \<Rightarrow> real \<Rightarrow> real" where
  "tier_tax b upper =
     fadd (fixed_or_zero b) (fmul (max 0 (fsub upper (threshold b))) (rate b))"

definition compute_individual_tax_brackets :: "real \<Rightarrow> bracket list \<Rightarrow> real" where
  "compute_individual_tax_brackets taxable_income brackets =
     (if taxable_income \<le> 0 then 0
      else py_round2 (max 0 (bracket_loop taxable_income 0 brackets)))"

definition compute_company_tax :: "real \<Rightarrow> real \<Rightarrow> real" where
  "compute_company_tax taxable_income company_rate =
     (if taxable_income \<le> 0 then 0 else py_round2 (fmul taxable_income company_rate))"

definition apply_credits_and_rebates :: "real \<Rightarrow> real \<Rightarrow> real \<Rightarrow> real \<Rightarrow> real" where
  "apply_credits_and_rebates gross_tax credits_wht credits_foreign rebates =
     max 0 (fsub (fsub (fsub gross_tax credits_wht) credits_foreign) rebates)"

text \<open>
  The default table. A literal such as \<^verbatim>\<open>0.10\<close> is the float nearest to that decimal.
\<close>

definition default_brackets :: "bracket list" where
  "default_brackets =
     [\<lparr>threshold = 0, rate = 0, fixed = Some 0\<rparr>,
      \<lparr>threshold = 2820000, rate = fl 0.10, fixed = Some 0\<rparr>,
      \<lparr>threshold = 4020000, rate = fl 0.20, fixed = Some 120000\<rparr>,
      \<lparr>threshold = 4920000, rate = fl 0.30, fixed = Some 360000\<rparr>,
      \<lparr>threshold = 10000000, rate = fl 0.40, fixed = Some 1830000\<rparr>]"

text \<open>
  The sidebar loads the editable table:
  \<^verbatim>\<open>individual_brackets = sorted(json.loads(brackets_json), key=lambda x: x["threshold"])\<close>
  inside \<^verbatim>\<open>try\<close>, with \<^verbatim>\<open>individual_brackets = default_brackets\<close> in the \<^verbatim>\<open>except\<close> branch.
  The parsed text is \<open>Some\<close> list of tiers, or \<open>None\<close> when parsing or sorting raises.
  \<^verbatim>\<open>sorted\<close> is stable, as \<open>sort_key\<close> is.
\<close>

definition individual_brackets :: "bracket list option \<Rightarrow> bracket list" where
  "individual_brackets parsed =
     (case parsed of None \<Rightarrow> default_brackets | Some bs \<Rightarrow> sort_key threshold bs)"

text \<open>
  \<^verbatim>\<open>json.loads\<close> turns each number of the written table into the nearest float.
\<close>

definition load_bracket :: "bracket \<Rightarrow> bracket" where
  "load_bracket b =
     \<lparr>threshold = fl (threshold b), rate = fl (rate b), fixed = map_option fl (fixed b)\<rparr>"

subsection \<open>Strings\<close>

text \<open>
  Text is taken to be Latin-1: a character is a code point below 256. \<^verbatim>\<open>str.lower()\<close>
  maps the capital letters, \<open>A\<close> to \<open>Z\<close> and the accented capitals 192 to 222 (but not the
  multiplication sign, 215), to the code point 32 above; \<^verbatim>\<open>str.strip()\<close> removes leading
  and trailing white space, the code points 9 to 13, 28 to 32, 133 and 160.
\<close>

definition lower_char :: "char \<Rightarrow> char" where
  "lower_char c =
     (let n = (of_char c :: nat)
      in if (65 \<le> n \<and> n \<le> 90) \<or> (192 \<le> n \<and> n \<le> 222 \<and> n \<noteq> 215) then char_of (n + 32)
         else c)"

definition py_lower :: "string \<Rightarrow> string" where
  "py_lower s = map lower_char s"

definition is_space :: "char \<Rightarrow> bool" where
  "is_space c =
     (let n = (of_char c :: nat)
      in (9 \<le> n \<and> n \<le> 13) \<or> (28 \<le> n \<and> n \<le> 32) \<or> n = 133 \<or> n = 160)"

definition py_strip :: "string \<Rightarrow> string" where
  "py_strip s = rev (dropWhile is_space (rev (dropWhile is_space s)))"

subsection \<open>Tab 3: compute and credits\<close>

text \<open>
  The values tab 3 reads: the mapped P&L values, the values of the \<open>addbacks\<close> and
  \<open>allowables\<close> dicts (one number input per label), the six credit inputs and the
  sidebar's configuration.
\<close>

record computation_input =
  revenue :: real
  cogs :: real
  opex :: real
  other_income :: real
  other_expenses :: real
  addbacks :: "real list"
  allowables :: "real list"
  capital_allowances :: real
  exemptions :: real
  credits_wht :: real
  credits_foreign :: real
  rebates :: real
  provisional_tax_paid :: real
  taxpayer_type :: string
  company_rate :: real
  brackets_json :: "bracket list option"

record computation_result =
  pbit :: real
  total_addbacks :: real
  adjusted_profit :: real
  total_allowables :: real
  chargeable_income :: real
  adjusted_taxable_income :: real
  gross_tax :: real
  net_tax_payable :: real
  net_tax_after_provisional :: real

definition tab3 :: "computation_input \<Rightarrow> computation_result" where
  "tab3 inp =
     (let pbit = fsub (fadd (revenue inp) (other_income inp))
                   (fadd (fadd (cogs inp) (opex inp)) (other_expenses inp));
          total_addbacks = py_sum (addbacks inp);
          adjusted_profit = fadd pbit total_addbacks;
          total_allowables = py_sum (allowables inp);
          chargeable_income = max 0 (fsub adjusted_profit total_allowables);
          adjusted_taxable_income =
            max 0 (fsub (fsub chargeable_income (capital_allowances inp)) (exemptions inp));
          gross_tax =
            (if py_lower (taxpayer_type inp) = ''company''
             then compute_company_tax adjusted_taxable_income (company_rate inp)
             else compute_individual_tax_brackets adjusted_taxable_income
                    (individual_brackets (brackets_json inp)));
          net_tax_payable =
            apply_credits_and_rebates gross_tax (credits_wht inp) (credits_foreign inp)
              (rebates inp);
          net_tax_after_provisional = max 0 (fsub net_tax_payable (provisional_tax_paid inp))
      in \<lparr>pbit = pbit, total_addbacks = total_addbacks, adjusted_profit = adjusted_profit,
          total_allowables = total_allowables, chargeable_income = chargeable_income,
          adjusted_taxable_income = adjusted_taxable_income, gross_tax = gross_tax,
          net_tax_payable = net_tax_payable,
          net_tax_after_provisional = net_tax_after_provisional\<rparr>)"

subsection \<open>File upload and P&L mapping\<close>

text \<open>
  A DataFrame is its list of labelled columns, all of the same length, the labels being
  distinct text. A numeric column (dtype \<^verbatim>\<open>int64\<close> or \<^verbatim>\<open>float64\<close>) holds numbers and NaN
  (\<open>None\<close>); a text column (dtype \<^verbatim>\<open>object\<close>) holds strings, with \<open>None\<close> for a cell that is
  not a string.
\<close>

datatype column = Numeric "real option list" | Text "string option list"

type_synonym dataframe = "(string \<times> column) list"

text \<open>\<^verbatim>\<open>cols = {c.lower().strip(): c for c in df.columns}\<close>: a later column wins.\<close>

definition cols :: "dataframe \<Rightarrow> string \<rightharpoonup> string" where
  "cols df = map_of (rev (map (\<lambda>(c, _). (py_strip (py_lower c), c)) df))"

text \<open>
  The arithmetic of pandas and numpy is a parameter of the model. What \<^verbatim>\<open>Series.sum()\<close>
  returns depends on the dtype of the column (an \<^verbatim>\<open>int64\<close> sum wraps around modulo
  \<open>2^64\<close>, a \<^verbatim>\<open>float64\<close> sum skips NaN and rounds in an order of additions that pandas
  chooses, the sum of a text column joins the strings), and so does what \<^verbatim>\<open>+=\<close>
  and \<^verbatim>\<open>float()\<close> make of it. \<open>'n\<close> is the type of the totals; \<open>None\<close> is an exception.
\<close>

record 'n pandas =
  series_sum :: "column \<Rightarrow> 'n option"
  float_zero :: 'n
  add_total :: "'n \<Rightarrow> 'n \<Rightarrow> 'n option"
  to_float :: "'n \<Rightarrow> real option"

text \<open>
  \<^verbatim>\<open>df[cols.get(key)].sum() if key in cols else 0.0\<close>
\<close>

definition column_total :: "'n pandas \<Rightarrow> dataframe \<Rightarrow> string \<Rightarrow> 'n option" where
  "column_total np df key =
     (case cols df key of
        None \<Rightarrow> Some (float_zero np)
      | Some c \<Rightarrow> (case map_of df c of None \<Rightarrow> None | Some col \<Rightarrow> series_sum np col))"

text \<open>
  \<^verbatim>\<open>str.contains("a|b|c", case=False, na=False)\<close>: the pattern is an alternation of plain
  lower-case words, so the row matches when one of them occurs in the account name without
  regard to case; a cell that is not a string does not match.
\<close>

definition str_contains :: "string list \<Rightarrow> string option \<Rightarrow> bool" where
  "str_contains alternatives account =
     (case account of None \<Rightarrow> False
      | Some s \<Rightarrow> list_ex (\<lambda>k. sublist k (py_lower s)) alternatives)"

definition revenue_pattern :: "string list" where
  "revenue_pattern = [''income'', ''sales'', ''revenue'']"

definition cogs_pattern :: "string list" where
  "cogs_pattern = [''cogs'', ''cost of goods'']"

definition opex_pattern :: "string list" where
  "opex_pattern = [''expense'', ''utilities'', ''rent'', ''salary'', ''transport'', ''admin'']"

definition other_income_pattern :: "string list" where
  "other_income_pattern = [''other income'', ''gain'']"

definition other_expenses_pattern :: "string list" where
  "other_expenses_pattern = [''other expense'', ''loss'']"

text \<open>
  \<^verbatim>\<open>tmp[mask]["Amount"]\<close>: the cells of the amount column in the rows where the mask
  holds, in row order.
\<close>

definition select_rows :: "bool list \<Rightarrow> 'a list \<Rightarrow> 'a list" where
  "select_rows hits cells = map snd (filter fst (zip hits cells))"

definition bucket_rows :: "string list \<Rightarrow> string option list \<Rightarrow> column \<Rightarrow> column" where
  "bucket_rows alternatives accounts amounts =
     (let hits = map (str_contains alternatives) accounts
      in case amounts of
           Numeric vs \<Rightarrow> Numeric (select_rows hits vs)
         | Text ss \<Rightarrow> Text (select_rows hits ss))"

text \<open>
  \<^verbatim>\<open>running += tmp[tmp["Account"].str.contains(..)]["Amount"].sum()\<close>, for each of the five
  running totals.
\<close>

definition add_bucket ::
  "'n pandas \<Rightarrow> 'n \<Rightarrow> string list \<Rightarrow> string option list \<Rightarrow> column \<Rightarrow> 'n option" where
  "add_bucket np running alternatives accounts amounts = do {
     s \<leftarrow> series_sum np (bucket_rows alternatives accounts amounts);
     add_total np running s
   }"

text \<open>
  The Series summed for a pattern holds the amount of row \<open>j\<close>, between the selected
  amounts of the rows before it and those of the rows after it.
\<close>

definition counts_row ::
  "string list \<Rightarrow> string option list \<Rightarrow> real option list \<Rightarrow> nat \<Rightarrow> bool" where
  "counts_row alternatives accounts amounts j =
     (bucket_rows alternatives accounts (Numeric amounts)
      = Numeric (select_rows (map (str_contains alternatives) (take j accounts)) (take j amounts)
                 @ amounts ! j
                 # select_rows (map (str_contains alternatives) (drop (Suc j) accounts))
                     (drop (Suc j) amounts)))"

text \<open>
  \<^verbatim>\<open>.str\<close> raises on a column that is not text. The result is \<open>None\<close> when the source
  raises.
\<close>

definition auto_map_pl ::
  "'n pandas \<Rightarrow> dataframe \<Rightarrow> (real \<times> real \<times> real \<times> real \<times> real) option" where
  "auto_map_pl np df = do {
     revenue \<leftarrow> column_total np df ''revenue'';
     cogs \<leftarrow> column_total np df ''cogs'';
     opex \<leftarrow> column_total np df ''operating_expenses'';
     other_income \<leftarrow> column_total np df ''other_income'';
     other_expenses \<leftarrow> column_total np df ''other_expenses'';
     (revenue, cogs, opex, other_income, other_expenses) \<leftarrow>
       (case (cols df ''account'', cols df ''amount'') of
          (Some account_col, Some amount_col) \<Rightarrow>
            (case (map_of df account_col, map_of df amount_col) of
               (Some (Text accounts), Some amounts) \<Rightarrow> do {
                 revenue \<leftarrow> add_bucket np revenue revenue_pattern accounts amounts;
                 cogs \<leftarrow> add_bucket np cogs cogs_pattern accounts amounts;
                 opex \<leftarrow> add_bucket np opex opex_pattern accounts amounts;
                 other_income \<leftarrow>
                   add_bucket np other_income other_income_pattern accounts amounts;
                 other_expenses \<leftarrow>
                   add_bucket np other_expenses other_expenses_pattern accounts amounts;
                 Some (revenue, cogs, opex, other_income, other_expenses)
               }
             | _ \<Rightarrow> None)
        | _ \<Rightarrow> Some (revenue, cogs, opex, other_income, other_expenses));
     revenue \<leftarrow> to_float np revenue;
     cogs \<leftarrow> to_float np cogs;
     opex \<leftarrow> to_float np opex;
     other_income \<leftarrow> to_float np other_income;
     other_expenses \<leftarrow> to_float np other_expenses;
     Some (revenue, cogs, opex, other_income, other_expenses)
   }"

text \<open>
  What one bucket goes through in account/amount mode: the total of its own column, the
  sum of the rows its pattern selects added to it, and \<^verbatim>\<open>float()\<close> of the result.
\<close>

definition bucket_value ::
  "'n pandas \<Rightarrow> dataframe \<Rightarrow> string \<Rightarrow> string list \<Rightarrow> string option list \<Rightarrow> column
   \<Rightarrow> real option" where
  "bucket_value np df key alternatives accounts amounts = do {
     wide \<leftarrow> column_total np df key;
     both \<leftarrow> add_bucket np wide alternatives accounts amounts;
     to_float np both
   }"

text \<open>
  Where every amount is a whole number and the absolute values of a column add up to at
  most \<open>2^53\<close>, each partial sum is a whole number of at most that size, so a sum is exact
  in \<^verbatim>\<open>int64\<close> and in \<^verbatim>\<open>float64\<close> whatever the order of the additions. On such columns
  the arithmetic is this one:
\<close>

definition nan_sum :: "real option list \<Rightarrow> real" where
  "nan_sum vs = sum_list (map (\<lambda>v. case v of None \<Rightarrow> 0 | Some x \<Rightarrow> x) vs)"

definition exact_sums :: "real pandas" where
  "exact_sums =
     \<lparr>series_sum = (\<lambda>col. case col of Numeric vs \<Rightarrow> Some (nan_sum vs) | Text _ \<Rightarrow> None),
      float_zero = 0,
      add_total = (\<lambda>x y. Some (x + y)),
      to_float = Some\<rparr>"

subsection \<open>URA form schemas and validation\<close>

text \<open>
  The payload is a dict from field names to Python values. The values modelled are text,
  whole numbers, finite floats and \<^verbatim>\<open>None\<close>.
\<close>

datatype py_value = PStr string | PInt int | PFloat real | PNone

text \<open>
  \<^verbatim>\<open>float()\<close> returns a finite number, or an infinity or NaN when the text names one or
  the number written is too large.
\<close>

datatype float_value = Finite real | PosInf | NegInf | NaN

text \<open>
  A coerced value, as stored in \<^verbatim>\<open>out\<close>. \<open>CFloatText x\<close> stands for the text \<^verbatim>\<open>str(x)\<close> of
  a float \<open>x\<close>; its digits depend on the binary representation and are not modelled.
\<close>

datatype cell = CInt int | CFloat float_value | CStr string | CFloatText real

text \<open>
  \<open>KeyError\<close> is raised by \<^verbatim>\<open>URA_SCHEMAS[form_code]\<close>, \<open>ValueError\<close> with its message by the
  \<^verbatim>\<open>raise\<close> of the source. \<open>InvalidLiteral\<close> is the \<^verbatim>\<open>ValueError\<close> of \<^verbatim>\<open>int()\<close> and
  \<^verbatim>\<open>float()\<close> on text that is not a number, \<open>BadArgumentType\<close> their \<^verbatim>\<open>TypeError\<close> on
  \<^verbatim>\<open>None\<close>, \<open>OverflowError\<close> that of \<^verbatim>\<open>float()\<close> on a whole number too large for a float.
\<close>

datatype py_error =
    KeyError string
  | ValueError string
  | InvalidLiteral
  | BadArgumentType
  | OverflowError

text \<open>
  Numbers in text: surrounding white space is dropped, a sign may lead, and single
  underscores may stand between digits.
\<close>

definition is_digit :: "char \<Rightarrow> bool" where
  "is_digit c = (let n = (of_char c :: nat) in 48 \<le> n \<and> n \<le> 57)"

fun digit_part :: "string \<Rightarrow> string option" where
  "digit_part [] = None"
| "digit_part [c] = (if is_digit c then Some [c] else None)"
| "digit_part (c # d # cs) =
     (if is_digit c
      then map_option ((#) c) (if d = CHR ''_'' then digit_part cs else digit_part (d # cs))
      else None)"

definition nat_of_digits :: "string \<Rightarrow> nat" where
  "nat_of_digits ds = foldl (\<lambda>n c. 10 * n + (of_char c - 48)) 0 ds"

definition split_sign :: "string \<Rightarrow> bool \<times> string" where
  "split_sign t =
     (case t of
        [] \<Rightarrow> (False, [])
      | c # r \<Rightarrow> if c = CHR ''-'' then (True, r) else if c = CHR ''+'' then (False, r)
                 else (False, t))"

definition signed_digits :: "string \<Rightarrow> int option" where
  "signed_digits t =
     (case split_sign t of (neg, body) \<Rightarrow>
        map_option (\<lambda>ds. if neg then - int (nat_of_digits ds) else int (nat_of_digits ds))
          (digit_part body))"

definition int_literal :: "string \<Rightarrow> int option" where
  "int_literal s = signed_digits (py_strip s)"

text \<open>
  A number that rounds to a magnitude beyond the largest float, \<open>2^1024 - 2^971\<close>.
\<close>

definition float_overflow :: "real \<Rightarrow> bool" where
  "float_overflow x = (2 ^ 1024 - 2 ^ 970 \<le> \<bar>x\<bar>)"

text \<open>
  A decimal literal: digits with an optional fraction and an optional exponent. Its value
  is the float nearest to the number written, an infinity when that is too large.
\<close>

definition scale10 :: "real \<Rightarrow> int \<Rightarrow> real" where
  "scale10 x e = (if 0 \<le> e then x * 10 ^ nat e else x / 10 ^ nat (- e))"

definition mantissa :: "string \<Rightarrow> (nat \<times> nat) option" where
  "mantissa m =
     (let ip = takeWhile (\<lambda>c. c \<noteq> CHR ''.'') m; rest = dropWhile (\<lambda>c. c \<noteq> CHR ''.'') m
      in if rest = [] then map_option (\<lambda>ds. (nat_of_digits ds, 0)) (digit_part ip)
         else let fp = tl rest
              in if ip = [] \<and> fp = [] then None
                 else case (if ip = [] then Some [] else digit_part ip,
                            if fp = [] then Some [] else digit_part fp) of
                        (Some ids, Some fds) \<Rightarrow> Some (nat_of_digits (ids @ fds), length fds)
                      | _ \<Rightarrow> None)"

definition float_literal :: "string \<Rightarrow> float_value option" where
  "float_literal s =
     (case split_sign (py_strip s) of (neg, body) \<Rightarrow>
        if py_lower body = ''inf'' \<or> py_lower body = ''infinity''
        then Some (if neg then NegInf else PosInf)
        else if py_lower body = ''nan'' then Some NaN
        else
          let is_e = (\<lambda>c. c = CHR ''e'' \<or> c = CHR ''E'');
              m = takeWhile (\<lambda>c. \<not> is_e c) body;
              ex = dropWhile (\<lambda>c. \<not> is_e c) body
          in case (mantissa m, if ex = [] then Some 0 else signed_digits (tl ex)) of
               (Some (n, k), Some e) \<Rightarrow>
                 let v = scale10 (real n) (e - int k)
                 in Some (if float_overflow v then (if neg then NegInf else PosInf)
                          else Finite (if neg then - fl v else fl v))
             | _ \<Rightarrow> None)"

text \<open>
  \<^verbatim>\<open>int()\<close> of a float truncates toward zero; \<^verbatim>\<open>float()\<close> of a whole number is the
  nearest float, or an \<^verbatim>\<open>OverflowError\<close>; \<^verbatim>\<open>str()\<close> of a whole number is its decimal text.
\<close>

fun digits_of :: "nat \<Rightarrow> string" where
  "digits_of n =
     (if n < 10 then [char_of (48 + n)] else digits_of (n div 10) @ [char_of (48 + n mod 10)])"

definition py_int :: "py_value \<Rightarrow> py_error + int" where
  "py_int v =
     (case v of
        PInt i \<Rightarrow> Inr i
      | PFloat x \<Rightarrow> Inr (if 0 \<le> x then \<lfloor>x\<rfloor> else \<lceil>x\<rceil>)
      | PStr s \<Rightarrow> (case int_literal s of None \<Rightarrow> Inl InvalidLiteral | Some i \<Rightarrow> Inr i)
      | PNone \<Rightarrow> Inl BadArgumentType)"

definition py_float :: "py_value \<Rightarrow> py_error + float_value" where
  "py_float v =
     (case v of
        PInt i \<Rightarrow> if float_overflow (of_int i) then Inl OverflowError
                  else Inr (Finite (fl (of_int i)))
      | PFloat x \<Rightarrow> Inr (Finite x)
      | PStr s \<Rightarrow> (case float_literal s of None \<Rightarrow> Inl InvalidLiteral | Some x \<Rightarrow> Inr x)
      | PNone \<Rightarrow> Inl BadArgumentType)"

definition py_str :: "py_value \<Rightarrow> cell" where
  "py_str v =
     (case v of
        PStr s \<Rightarrow> CStr s
      | PInt i \<Rightarrow> CStr (if i < 0 then CHR ''-'' # digits_of (nat (- i)) else digits_of (nat i))
      | PFloat x \<Rightarrow> CFloatText x
      | PNone \<Rightarrow> CStr ''None'')"

text \<open>
  The \<^verbatim>\<open>if ftype == "int" ... elif ftype == "float" ... else\<close> of the loop body.
\<close>

definition coerce :: "string \<Rightarrow> py_value \<Rightarrow> py_error + cell" where
  "coerce ftype val =
     (if ftype = ''int'' then map_sum id CInt (py_int val)
      else if ftype = ''float'' then map_sum id CFloat (py_float val)
      else Inr (py_str val))"

definition URA_SCHEMAS :: "(string \<times> (string \<times> string) list) list" where
  "URA_SCHEMAS =
     [(''DT-2001'',
       [(''TIN'', ''str''), (''Taxpayer Name'', ''str''), (''Period'', ''str''),
        (''Year'', ''int''), (''Business Income (UGX)'', ''float''),
        (''Allowable Deductions (UGX)'', ''float''),
        (''Capital Allowances (UGX)'', ''float''),
        (''Exemptions (UGX)'', ''float''),
        (''Taxable Income (UGX)'', ''float''),
        (''Gross Tax (UGX)'', ''float''),
        (''WHT Credits (UGX)'', ''float''),
        (''Foreign Tax Credit (UGX)'', ''float''),
        (''Rebates (UGX)'', ''float''),
        (''Net Tax Payable (UGX)'', ''float'')]),
      (''DT-2002'',
       [(''TIN'', ''str''), (''Entity Name'', ''str''), (''Period'', ''str''),
        (''Year'', ''int''), (''Gross Turnover (UGX)'', ''float''),
        (''COGS (UGX)'', ''float''), (''Operating Expenses (UGX)'', ''float''),
        (''Other Income (UGX)'', ''float''), (''Other Expenses (UGX)'', ''float''),
        (''Capital Allowances (UGX)'', ''float''), (''Exemptions (UGX)'', ''float''),
        (''Taxable Income (UGX)'', ''float''), (''Gross Tax (UGX)'', ''float''),
        (''WHT Credits (UGX)'', ''float''), (''Foreign Tax Credit (UGX)'', ''float''),
        (''Rebates (UGX)'', ''float''), (''Net Tax Payable (UGX)'', ''float'')])]"

text \<open>
  The loop over the schema. \<^verbatim>\<open>out[field] = ...\<close> on the insertion-ordered dict \<open>out\<close> is
  \<open>AList.update\<close>; the one-row frame returned has the columns of \<open>out\<close> in that order.
\<close>

fun build_return ::
  "(string \<times> string) list \<Rightarrow> (string \<times> py_value) list \<Rightarrow> (string \<times> cell) list
   \<Rightarrow> py_error + (string \<times> cell) list" where
  "build_return [] payload out = Inr out"
| "build_return ((field, ftype) # schema) payload out =
     (case map_of payload field of
        None \<Rightarrow> Inl (ValueError (''Missing required field: '' @ field))
      | Some val \<Rightarrow>
          (case coerce ftype val of
             Inl e \<Rightarrow> Inl e
           | Inr c \<Rightarrow> build_return schema payload (AList.update field c out)))"

definition validate_and_build_return ::
  "string \<Rightarrow> (string \<times> py_value) list \<Rightarrow> py_error + (string \<times> cell) list" where
  "validate_and_build_return form_code payload =
     (case map_of URA_SCHEMAS form_code of
        None \<Rightarrow> Inl (KeyError form_code)
      | Some schema \<Rightarrow> build_return schema payload [])"

text \<open>The cell a field of the schema gets from a payload, when it gets one.\<close>

definition coerced_cell :: "(string \<times> py_value) list \<Rightarrow> string \<Rightarrow> string \<Rightarrow> cell option" where
  "coerced_cell payload field ftype =
     (case map_of payload field of
        None \<Rightarrow> None
      | Some val \<Rightarrow> (case coerce ftype val of Inl _ \<Rightarrow> None | Inr c \<Rightarrow> Some c))"

text \<open>The payload tab 5 builds for form DT-2001 from its inputs.\<close>

definition dt2001_payload ::
  "string \<Rightarrow> string \<Rightarrow> string \<Rightarrow> int \<Rightarrow> real \<Rightarrow> real \<Rightarrow> real \<Rightarrow> real \<Rightarrow> real \<Rightarrow> real
   \<Rightarrow> real \<Rightarrow> real \<Rightarrow> (string \<times> py_value) list" where
  "dt2001_payload TIN_input taxpayer_name suggested_period suggested_year business_income
       allowable_deductions capital_allowances_f exemptions_f gross_tax_f wht_f foreign_f
       rebates_f =
     [(''TIN'', PStr TIN_input),
      (''Taxpayer Name'', PStr taxpayer_name),
      (''Period'', PStr suggested_period),
      (''Year'', PInt suggested_year),
      (''Business Income (UGX)'', PFloat business_income),
      (''Allowable Deductions (UGX)'', PFloat allowable_deductions),
      (''Capital Allowances (UGX)'', PFloat capital_allowances_f),
      (''Exemptions (UGX)'', PFloat exemptions_f),
      (''Taxable Income (UGX)'',
         PFloat (max 0 (fsub (fsub (fsub business_income allowable_deductions)
                                capital_allowances_f) exemptions_f))),
      (''Gross Tax (UGX)'', PFloat gross_tax_f),
      (''WHT Credits (UGX)'', PFloat wht_f),
      (''Foreign Tax Credit (UGX)'', PFloat foreign_f),
      (''Rebates (UGX)'', PFloat rebates_f),
      (''Net Tax Payable (UGX)'',
         PFloat (max 0 (fsub (fsub (fsub gross_tax_f wht_f) foreign_f) rebates_f)))]"

section \<open>The flat 30 percent script (uganda\_tax\_full\_mvp.py)\<close>

text \<open>
  The script adds up its thirty addback inputs and its seven allowable inputs, each as one
  chain of \<^verbatim>\<open>+\<close>, and subtracts without a floor; a negative \<open>final_tax\<close> is shown as
  "Tax Refund Due".
\<close>

definition full_mvp_chargeable_income :: "real \<Rightarrow> real list \<Rightarrow> real list \<Rightarrow> real" where
  "full_mvp_chargeable_income pbit_in addback_inputs allowable_inputs =
     (let adjusted = fadd pbit_in (add_chain addback_inputs)
      in fsub adjusted (add_chain allowable_inputs))"

definition full_mvp_final_tax ::
  "real \<Rightarrow> real list \<Rightarrow> real list \<Rightarrow> real \<Rightarrow> real \<Rightarrow> real" where
  "full_mvp_final_tax pbit_in addback_inputs allowable_inputs provisional_taxes_paid
       withholding_taxes =
     (let income_tax =
            py_round2 (fmul (full_mvp_chargeable_income pbit_in addback_inputs allowable_inputs)
                         (fl 0.30))
      in fsub (fsub income_tax provisional_taxes_paid) withholding_taxes)"

section \<open>The structural contract of a tier table\<close>

text \<open>
  The data model asks for strictly ascending thresholds and for each tier's \<open>fixed\<close> to be
  the tax accumulated at its threshold by the tiers below it; rates are fractions in
  \<open>[0, 1]\<close> and amounts are non-negative. \<open>bracket_contract\<close> reads this on the numbers as
  they are written, in exact arithmetic.
\<close>

fun cumulative_fixed :: "bracket list \<Rightarrow> bool" where
  "cumulative_fixed (b # c # rest) =
     (threshold b < threshold c
      \<and> fixed_or_zero c = fixed_or_zero b + rate b * (threshold c - threshold b)
      \<and> cumulative_fixed (c # rest))"
| "cumulative_fixed _ = True"

definition bracket_contract :: "bracket list \<Rightarrow> bool" where
  "bracket_contract bs =
     (list_all (\<lambda>b. 0 \<le> threshold b \<and> 0 \<le> rate b \<and> rate b \<le> 1) bs
      \<and> (case bs of [] \<Rightarrow> True | b # _ \<Rightarrow> fixed_or_zero b = 0)
      \<and> cumulative_fixed bs)"

text \<open>
  \<open>float_bracket_contract\<close> reads it on the floats of the loaded table, in the arithmetic
  of the calculator: the \<open>fixed\<close> of a tier is what the calculator's formula for the tier
  below gives at this tier's threshold.
\<close>

fun float_cumulative_fixed :: "bracket list \<Rightarrow> bool" where
  "float_cumulative_fixed (b # c # rest) =
     (threshold b < threshold c
      \<and> fixed_or_zero c
          = fadd (fixed_or_zero b) (fmul (fsub (threshold c) (threshold b)) (rate b))
      \<and> float_cumulative_fixed (c # rest))"
| "float_cumulative_fixed _ = True"

definition float_bracket_contract :: "bracket list \<Rightarrow> bool" where
  "float_bracket_contract bs =
     (list_all (\<lambda>b. 0 \<le> threshold b \<and> 0 \<le> rate b \<and> rate b \<le> 1) bs
      \<and> (case bs of [] \<Rightarrow> True | b # _ \<Rightarrow> fixed_or_zero b = 0)
      \<and> float_cumulative_fixed bs)"

section \<open>Rounding\<close>

lemma round_half_even_of_int [simp]: "round_half_even (of_int n) = n"
  by (simp add: round_half_even_def)

lemma round_half_even_zero [simp]: "round_half_even 0 = 0"
  by (simp add: round_half_even_def)

lemma round_half_even_bounds:
  "\<lfloor>x\<rfloor> \<le> round_half_even x \<and> round_half_even x \<le> \<lfloor>x\<rfloor> + 1"
  by (simp add: round_half_even_def Let_def)

lemma round_half_even_mono:
  assumes "x \<le> y" shows "round_half_even x \<le> round_half_even y"
proof (cases "\<lfloor>x\<rfloor> = \<lfloor>y\<rfloor>")
  case True
  with assms show ?thesis
    by (auto simp add: round_half_even_def Let_def)
next
  case False
  with assms have "\<lfloor>x\<rfloor> < \<lfloor>y\<rfloor>" using floor_mono [of x y] by linarith
  then have "round_half_even x \<le> \<lfloor>y\<rfloor>" using round_half_even_bounds [of x] by linarith
  then show ?thesis using round_half_even_bounds [of y] by linarith
qed

lemma round_half_even_close: "\<bar>of_int (round_half_even x) - x\<bar> \<le> 1/2"
  by (auto simp add: round_half_even_def Let_def abs_le_iff; linarith)

lemma floor_minus_nonint: "(x::real) \<notin> \<int> \<Longrightarrow> \<lfloor>- x\<rfloor> = - \<lfloor>x\<rfloor> - 1"
proof -
  assume "x \<notin> \<int>"
  then have "real_of_int \<lfloor>x\<rfloor> \<noteq> x" by (metis Ints_of_int)
  moreover have "real_of_int \<lfloor>x\<rfloor> \<le> x" by simp
  ultimately have a: "real_of_int \<lfloor>x\<rfloor> < x" by linarith
  have b: "x < real_of_int \<lfloor>x\<rfloor> + 1" by linarith
  show ?thesis
  proof (rule floor_unique)
    have c: "real_of_int (- \<lfloor>x\<rfloor> - 1) = - real_of_int \<lfloor>x\<rfloor> - 1" by simp
    show "real_of_int (- \<lfloor>x\<rfloor> - 1) \<le> - x" unfolding c using b by linarith
    show "- x < real_of_int (- \<lfloor>x\<rfloor> - 1) + 1" unfolding c using a by linarith
  qed
qed

lemma round_half_even_minus: "round_half_even (- x) = - round_half_even x"
proof (cases "x \<in> \<int>")
  case True
  then obtain n where "x = of_int n" by (auto elim: Ints_cases)
  then have "- x = of_int (- n)" by simp
  then show ?thesis unfolding \<open>x = of_int n\<close>
    by (metis round_half_even_of_int of_int_minus)
next
  case False
  have f: "\<lfloor>- x\<rfloor> = - \<lfloor>x\<rfloor> - 1" using False by (rule floor_minus_nonint)
  have "of_int \<lfloor>x\<rfloor> \<le> x" "x < of_int \<lfloor>x\<rfloor> + 1" by linarith+
  then show ?thesis
    unfolding round_half_even_def Let_def f
    by (auto simp add: algebra_simps)
qed

lemma two_powi_pos [simp]: "0 < (2::real) powi k"
  by simp

lemma denorm_scale_pos [simp]: "0 < denorm_scale"
  by (simp add: denorm_scale_def)

lemma denorm_scale_powi: "denorm_scale = 2 powi 1074"
  by (simp add: denorm_scale_def)

lemma powi_div_scale: "2 powi m / denorm_scale = 2 powi (m - 1074)"
proof -
  have "2 powi (m - 1074) = 2 powi m / (2::real) powi 1074"
    by (rule power_int_diff) simp
  then show ?thesis by (simp only: denorm_scale_powi)
qed

lemma expo_ge: "- 1022 \<le> expo a"
  by (simp add: expo_def)

lemma expo_mono: "a \<le> b \<Longrightarrow> expo a \<le> expo b"
proof -
  assume "a \<le> b"
  then have "\<lfloor>a * denorm_scale\<rfloor> \<le> \<lfloor>b * denorm_scale\<rfloor>" by (intro floor_mono) simp
  then have "bitlen \<lfloor>a * denorm_scale\<rfloor> \<le> bitlen \<lfloor>b * denorm_scale\<rfloor>"
    unfolding bitlen_def by (intro iffD2 [OF of_nat_le_iff] floorlog_mono) simp
  then show ?thesis by (simp add: expo_def)
qed

lemma expo_upper:
  assumes "0 \<le> a" shows "a < 2 powi (expo a + 1)"
proof -
  define n where "n = \<lfloor>a * denorm_scale\<rfloor>"
  define L where "L = bitlen n"
  have "0 \<le> a * denorm_scale"
    using assms by (intro mult_nonneg_nonneg) (simp_all add: order.strict_implies_order)
  then have n0: "0 \<le> n" by (simp add: n_def)
  have L0: "0 \<le> L" by (simp add: L_def bitlen_nonneg)
  have "n < 2 ^ nat L"
  proof (cases "n = 0")
    case True then show ?thesis by simp
  next
    case False
    then have "0 < n" using n0 by linarith
    then show ?thesis unfolding L_def using bitlen_bounds by blast
  qed
  then have "n + 1 \<le> 2 ^ nat L" by linarith
  then have "real_of_int (n + 1) \<le> real_of_int (2 ^ nat L)" by (rule iffD2 [OF of_int_le_iff])
  then have "real_of_int n + 1 \<le> 2 ^ nat L" by simp
  moreover have "a * denorm_scale < real_of_int n + 1" unfolding n_def by linarith
  ultimately have "a * denorm_scale < 2 ^ nat L" by linarith
  also have "(2::real) ^ nat L = 2 powi L" using L0 by (simp add: power_int_def)
  finally have "a < 2 powi L / denorm_scale" by (simp add: field_simps)
  also have "\<dots> = 2 powi (L - 1074)" by (rule powi_div_scale)
  also have "\<dots> \<le> 2 powi (expo a + 1)"
    by (intro power_int_increasing) (simp_all add: expo_def L_def n_def)
  finally show ?thesis .
qed

lemma expo_lower:
  assumes "- 1022 < expo a" shows "2 powi (expo a) \<le> a"
proof -
  define n where "n = \<lfloor>a * denorm_scale\<rfloor>"
  define L where "L = bitlen n"
  have e: "expo a = L - 1075"
    using assms by (simp add: expo_def max_def L_def n_def split: if_splits)
  then have L: "53 < L" using assms by linarith
  have "0 < n"
  proof (rule ccontr)
    assume "\<not> 0 < n"
    then have "bitlen n = 0" by (simp add: bitlen_alt_def)
    with L show False by (simp add: L_def)
  qed
  then have "2 ^ nat (L - 1) \<le> n" unfolding L_def using bitlen_bounds by blast
  then have "real_of_int (2 ^ nat (L - 1)) \<le> real_of_int n" by (rule iffD2 [OF of_int_le_iff])
  then have "2 ^ nat (L - 1) \<le> real_of_int n" by simp
  moreover have "real_of_int n \<le> a * denorm_scale" unfolding n_def by simp
  ultimately have "2 ^ nat (L - 1) \<le> a * denorm_scale" by linarith
  moreover have "(2::real) ^ nat (L - 1) = 2 powi (L - 1)" using L by (simp add: power_int_def)
  ultimately have "2 powi (L - 1) / denorm_scale \<le> a" by (simp add: field_simps)
  moreover have "2 powi (L - 1) / denorm_scale = 2 powi (L - 1 - 1074)"
    by (rule powi_div_scale)
  moreover have "L - 1 - 1074 = expo a" using e by simp
  ultimately show ?thesis by simp
qed


lemma ulp_pos [simp]: "0 < ulp x"
  by (simp add: ulp_def)

lemma ulp_minus [simp]: "ulp (- x) = ulp x"
  by (simp add: ulp_def)

lemma fl_zero [simp]: "fl 0 = 0"
  by (simp add: fl_def)

lemma fl_minus: "fl (- x) = - fl x"
  by (simp add: fl_def round_half_even_minus)

lemma fl_nonneg: "0 \<le> x \<Longrightarrow> 0 \<le> fl x"
proof -
  assume "0 \<le> x"
  then have "0 \<le> x / ulp x" by (simp add: order.strict_implies_order)
  then have "0 \<le> \<lfloor>x / ulp x\<rfloor>" by simp
  then have "0 \<le> round_half_even (x / ulp x)"
    using round_half_even_bounds [of "x / ulp x"] by linarith
  then show ?thesis by (simp add: fl_def order.strict_implies_order)
qed

lemma fl_upper:
  assumes "0 \<le> x" shows "fl x \<le> 2 powi (expo x + 1)"
proof -
  have u: "ulp x = 2 powi (expo x - 52)" using assms by (simp add: ulp_def)
  have "x < 2 powi (expo x + 1)" using assms by (rule expo_upper)
  also have "2 powi (expo x + 1) = 2 ^ 53 * ulp x"
    unfolding u using power_int_add [of "2::real" 53 "expo x - 52"] by (simp add: algebra_simps)
  finally have "x / ulp x < 2 ^ 53" by (simp add: field_simps)
  then have "\<lfloor>x / ulp x\<rfloor> < 2 ^ 53" by (metis floor_less_iff of_int_numeral of_int_power)
  then have "round_half_even (x / ulp x) \<le> 2 ^ 53"
    using round_half_even_bounds [of "x / ulp x"] by linarith
  then have "real_of_int (round_half_even (x / ulp x)) \<le> 2 ^ 53"
    by (metis of_int_le_iff of_int_numeral of_int_power)
  then have "fl x \<le> 2 ^ 53 * ulp x"
    unfolding fl_def by (intro mult_right_mono) (simp_all add: order.strict_implies_order)
  also have "2 ^ 53 * ulp x = 2 powi (expo x + 1)"
    unfolding u using power_int_add [of "2::real" 53 "expo x - 52"] by (simp add: algebra_simps)
  finally show ?thesis .
qed

lemma fl_lower:
  assumes "- 1022 < expo x" "0 \<le> x" shows "2 powi (expo x) \<le> fl x"
proof -
  have u: "ulp x = 2 powi (expo x - 52)" using assms by (simp add: ulp_def)
  have e: "2 powi (expo x) = 2 ^ 52 * ulp x"
    unfolding u using power_int_add [of "2::real" 52 "expo x - 52"] by (simp add: algebra_simps)
  have "2 powi (expo x) \<le> x" using assms(1) by (rule expo_lower)
  then have "2 ^ 52 \<le> x / ulp x" unfolding e by (simp add: field_simps)
  then have "2 ^ 52 \<le> \<lfloor>x / ulp x\<rfloor>" by (metis le_floor_iff of_int_numeral of_int_power)
  then have "2 ^ 52 \<le> round_half_even (x / ulp x)"
    using round_half_even_bounds [of "x / ulp x"] by linarith
  then have "2 ^ 52 \<le> real_of_int (round_half_even (x / ulp x))"
    by (metis of_int_le_iff of_int_numeral of_int_power)
  then have "2 ^ 52 * ulp x \<le> fl x"
    unfolding fl_def by (intro mult_right_mono) (simp_all add: order.strict_implies_order)
  then show ?thesis unfolding e .
qed

lemma fl_mono_nonneg:
  assumes "0 \<le> x" "x \<le> y" shows "fl x \<le> fl y"
proof (cases "expo x = expo y")
  case True
  have y0: "0 \<le> y" using assms by linarith
  have u: "ulp x = ulp y" using True assms y0 by (simp add: ulp_def)
  have "x / ulp y \<le> y / ulp y" using assms(2) by (simp add: divide_right_mono order.strict_implies_order)
  then have "round_half_even (x / ulp y) \<le> round_half_even (y / ulp y)"
    by (rule round_half_even_mono)
  then show ?thesis unfolding fl_def u
    by (intro mult_right_mono) (simp_all add: order.strict_implies_order)
next
  case False
  have y0: "0 \<le> y" using assms by linarith
  have lt: "expo x < expo y" using False expo_mono [OF assms(2)] by linarith
  then have big: "- 1022 < expo y" using expo_ge [of x] by linarith
  have "fl x \<le> 2 powi (expo x + 1)" using assms(1) by (rule fl_upper)
  also have "\<dots> \<le> 2 powi (expo y)" using lt by (intro power_int_increasing) simp_all
  also have "\<dots> \<le> fl y" using big y0 by (rule fl_lower)
  finally show ?thesis .
qed

lemma fl_mono:
  assumes "x \<le> y" shows "fl x \<le> fl y"
proof -
  consider "0 \<le> x" | "x < 0" "0 \<le> y" | "y < 0" by linarith
  then show ?thesis
  proof cases
    case 1
    then show ?thesis using assms by (rule fl_mono_nonneg)
  next
    case 2
    have "fl (- x) \<ge> 0" using 2 by (intro fl_nonneg) simp
    then have "fl x \<le> 0" by (simp add: fl_minus)
    then show ?thesis using fl_nonneg [OF 2(2)] by linarith
  next
    case 3
    have "fl (- y) \<le> fl (- x)" using 3 assms by (intro fl_mono_nonneg) simp_all
    then show ?thesis by (simp add: fl_minus)
  qed
qed


text \<open>Evaluation: the grid is known once the binade is.\<close>

lemma expo_eqI:
  assumes "- 1022 \<le> e" "2 powi e \<le> a" "a < 2 powi (e + 1)"
  shows "expo a = e"
proof -
  have a0: "0 \<le> a" using assms(2) by (meson two_powi_pos less_le_trans order.strict_implies_order)
  have up: "a < 2 powi (expo a + 1)" using a0 by (rule expo_upper)
  have "2 powi e < (2::real) powi (expo a + 1)" using assms(2) up by linarith
  have le: "e \<le> expo a"
  proof (rule ccontr)
    assume "\<not> e \<le> expo a"
    then have "expo a + 1 \<le> e" by simp
    then have "(2::real) powi (expo a + 1) \<le> 2 powi e"
      by (intro power_int_increasing) simp_all
    then show False using \<open>2 powi e < (2::real) powi (expo a + 1)\<close> by linarith
  qed
  show ?thesis
  proof (rule ccontr)
    assume "expo a \<noteq> e"
    then have lt: "e < expo a" using le by linarith
    then have "- 1022 < expo a" using assms(1) by linarith
    then have "2 powi (expo a) \<le> a" by (rule expo_lower)
    moreover have "(2::real) powi (e + 1) \<le> 2 powi (expo a)"
      using lt by (intro power_int_increasing) simp_all
    ultimately show False using assms(3) by linarith
  qed
qed

lemma expo_subnormal:
  assumes "0 \<le> a" "a < 2 powi (- 1021)" shows "expo a = - 1022"
proof (rule ccontr)
  assume "expo a \<noteq> - 1022"
  then have lt: "- 1022 < expo a" using expo_ge [of a] by linarith
  then have "2 powi (expo a) \<le> a" by (rule expo_lower)
  moreover have "(2::real) powi (- 1021) \<le> 2 powi (expo a)"
    using lt by (intro power_int_increasing) simp_all
  ultimately show False using assms(2) by linarith
qed

lemma fl_eval:
  assumes "- 1074 \<le> k" "\<bar>x\<bar> < 2 ^ 53 * 2 powi k" "k = - 1074 \<or> 2 ^ 52 * 2 powi k \<le> \<bar>x\<bar>"
  shows "fl x = of_int (round_half_even (x / 2 powi k)) * 2 powi k"
proof -
  have p53: "2 ^ 53 * (2::real) powi k = 2 powi (k + 52 + 1)"
    using power_int_add [of "2::real" 53 k] by (simp add: algebra_simps)
  have p52: "2 ^ 52 * (2::real) powi k = 2 powi (k + 52)"
    using power_int_add [of "2::real" 52 k] by (simp add: algebra_simps)
  have "expo \<bar>x\<bar> = k + 52"
  proof (cases "2 ^ 52 * 2 powi k \<le> \<bar>x\<bar>")
    case True
    show ?thesis
      using assms(1) True assms(2) unfolding p53 p52 by (intro expo_eqI) simp_all
  next
    case False
    then have k: "k = - 1074" using assms(3) by blast
    have "\<bar>x\<bar> < 2 powi (- 1021)" using assms(2) unfolding p53 k by simp
    then have "expo \<bar>x\<bar> = - 1022" by (intro expo_subnormal) simp_all
    then show ?thesis using k by simp
  qed
  then have "ulp x = 2 powi k" by (simp add: ulp_def)
  then show ?thesis by (simp add: fl_def)
qed

lemma fl_grid:
  assumes "- 1074 \<le> k" "\<bar>n\<bar> \<le> 2 ^ 53"
  shows "fl (of_int n * 2 powi k) = of_int n * 2 powi k"
proof -
  define x where "x = real_of_int n * 2 powi k"
  define e where "e = expo \<bar>x\<bar>"
  define j where "j = e - 52"
  have u: "ulp x = 2 powi j" by (simp add: ulp_def e_def j_def)
  have ax: "\<bar>x\<bar> = real_of_int \<bar>n\<bar> * 2 powi k" by (simp add: x_def abs_mult)
  have p53: "2 ^ 53 * (2::real) powi k = 2 powi (k + 53)"
    using power_int_add [of "2::real" 53 k] by (simp add: algebra_simps)
  have "real_of_int \<bar>n\<bar> \<le> 2 ^ 53" using assms(2)
    by (metis of_int_le_iff of_int_numeral of_int_power)
  then have xle: "\<bar>x\<bar> \<le> 2 powi (k + 53)"
    unfolding ax p53 [symmetric] by (intro mult_right_mono) simp_all
  have e_le: "e \<le> k + 53"
  proof (rule ccontr)
    assume "\<not> e \<le> k + 53"
    then have lt: "k + 53 < e" by simp
    then have "- 1022 < expo \<bar>x\<bar>" using assms(1) by (simp add: e_def)
    then have "2 powi (expo \<bar>x\<bar>) \<le> \<bar>x\<bar>" by (rule expo_lower)
    moreover have "(2::real) powi (k + 53 + 1) \<le> 2 powi (expo \<bar>x\<bar>)"
      using lt by (intro power_int_increasing) (simp_all add: e_def)
    moreover have "(2::real) powi (k + 53) < 2 powi (k + 53 + 1)"
      by (intro power_int_strict_increasing) simp_all
    ultimately show False using xle by linarith
  qed
  show ?thesis
  proof (cases "j \<le> k")
    case True
    have "2 powi k / (2::real) powi j = 2 powi (k - j)" by (simp add: power_int_diff)
    also have "\<dots> = 2 ^ nat (k - j)" using True by (simp add: power_int_def)
    finally have q: "2 powi k / (2::real) powi j = 2 ^ nat (k - j)" .
    have "x / ulp x = real_of_int n * (2 powi k / 2 powi j)" unfolding u by (simp add: x_def)
    also have "\<dots> = real_of_int (n * 2 ^ nat (k - j))" unfolding q by simp
    finally have d: "x / ulp x = real_of_int (n * 2 ^ nat (k - j))" .
    have "round_half_even (x / ulp x) = n * 2 ^ nat (k - j)"
      unfolding d by (rule round_half_even_of_int)
    then have "fl x = real_of_int (n * 2 ^ nat (k - j)) * ulp x" by (simp add: fl_def)
    also have "\<dots> = (x / ulp x) * ulp x" unfolding d ..
    also have "\<dots> = x" using ulp_pos [of x] by (simp add: less_imp_neq [THEN not_sym])
    finally show ?thesis by (simp add: x_def)
  next
    case False
    then have jk: "j = k + 1" using e_le by (simp add: j_def)
    then have ek: "e = k + 53" by (simp add: j_def)
    then have "- 1022 < expo \<bar>x\<bar>" using assms(1) by (simp add: e_def)
    then have "2 powi (expo \<bar>x\<bar>) \<le> \<bar>x\<bar>" by (rule expo_lower)
    then have "2 ^ 53 * (2::real) powi k \<le> real_of_int \<bar>n\<bar> * 2 powi k"
      unfolding p53 ax [symmetric] using ek by (simp add: e_def)
    then have "(2::real) ^ 53 \<le> real_of_int \<bar>n\<bar>" by simp
    then have "2 ^ 53 \<le> \<bar>n\<bar>" by (metis of_int_le_iff of_int_numeral of_int_power)
    then have "\<bar>n\<bar> = 2 ^ 53" using assms(2) by linarith
    then have "even \<bar>n\<bar>" by simp
    then have "even n" by simp
    then obtain m where m: "n = 2 * m" by (auto elim: evenE)
    have "(2::real) powi j = 2 * 2 powi k"
      unfolding jk using power_int_add [of "2::real" k 1] by (simp add: algebra_simps)
    then have u2: "ulp x = 2 * 2 powi k" using u by simp
    have "x / ulp x = real_of_int m" unfolding u2 by (simp add: x_def m)
    then have "round_half_even (x / ulp x) = m" by (simp only: round_half_even_of_int)
    then have "fl x = real_of_int m * (2 * 2 powi k)" by (simp add: fl_def u2)
    then show ?thesis by (simp add: x_def m)
  qed
qed

lemma fl_of_int: "\<bar>n\<bar> \<le> 2 ^ 53 \<Longrightarrow> fl (of_int n) = of_int n"
  using fl_grid [of 0 n] by simp

lemma fl_numeral: "(numeral k :: int) \<le> 2 ^ 53 \<Longrightarrow> fl (numeral k) = numeral k"
  using fl_of_int [of "numeral k"] by simp

lemma fl_one [simp]: "fl 1 = 1"
  using fl_of_int [of 1] by simp

lemma fl_idem [simp]: "fl (fl x) = fl x"
proof -
  define n where "n = round_half_even (x / ulp x)"
  have u: "ulp x = 2 powi (expo \<bar>x\<bar> - 52)" by (simp add: ulp_def)
  have k: "- 1074 \<le> expo \<bar>x\<bar> - 52" using expo_ge [of "\<bar>x\<bar>"] by simp
  have "\<bar>x\<bar> < 2 powi (expo \<bar>x\<bar> + 1)" by (intro expo_upper) simp
  also have "2 powi (expo \<bar>x\<bar> + 1) = 2 ^ 53 * ulp x"
    unfolding u using power_int_add [of "2::real" 53 "expo \<bar>x\<bar> - 52"] by (simp add: algebra_simps)
  finally have "\<bar>x\<bar> / ulp x < 2 ^ 53" by (simp add: field_simps)
  moreover have "\<bar>ulp x\<bar> = ulp x" using ulp_pos [of x] by linarith
  ultimately have "\<bar>x / ulp x\<bar> < 2 ^ 53" by (simp add: abs_divide)
  then have b: "- (2 ^ 53) \<le> x / ulp x" "x / ulp x \<le> 2 ^ 53" by linarith+
  have "round_half_even (real_of_int (- (2 ^ 53))) \<le> n"
    unfolding n_def using b(1) by (intro round_half_even_mono) simp
  moreover have "n \<le> round_half_even (real_of_int (2 ^ 53))"
    unfolding n_def using b(2) by (intro round_half_even_mono) simp
  ultimately have "\<bar>n\<bar> \<le> 2 ^ 53" by (simp only: round_half_even_of_int abs_le_iff) simp
  then have "fl (of_int n * 2 powi (expo \<bar>x\<bar> - 52)) = of_int n * 2 powi (expo \<bar>x\<bar> - 52)"
    using k by (intro fl_grid)
  then show ?thesis by (simp add: fl_def [of x] n_def u)
qed


text \<open>The floats of the decimal literals of the default table.\<close>

lemma fl_0_10: "fl (1 / 10) = 3602879701896397 / 36028797018963968"
  by (subst fl_eval [where k = "- 56"]) (simp_all add: round_half_even_def Let_def)

lemma fl_0_20: "fl (1 / 5) = 3602879701896397 / 18014398509481984"
  by (subst fl_eval [where k = "- 55"]) (simp_all add: round_half_even_def Let_def)

lemma fl_0_30: "fl (3 / 10) = 5404319552844595 / 18014398509481984"
  by (subst fl_eval [where k = "- 54"]) (simp_all add: round_half_even_def Let_def)

lemma fl_0_40: "fl (2 / 5) = 3602879701896397 / 9007199254740992"
  by (subst fl_eval [where k = "- 54"]) (simp_all add: round_half_even_def Let_def)

text \<open>The operations are monotone, and exact on whole numbers up to \<open>2^53\<close>.\<close>

lemma fsub_mono: "x \<le> y \<Longrightarrow> fsub x t \<le> fsub y t"
  unfolding fsub_def by (intro fl_mono) simp

lemma fsub_nonneg: "t \<le> x \<Longrightarrow> 0 \<le> fsub x t"
  unfolding fsub_def by (intro fl_nonneg) simp

lemma fmul_mono: "0 \<le> r \<Longrightarrow> x \<le> y \<Longrightarrow> fmul x r \<le> fmul y r"
  unfolding fmul_def by (intro fl_mono mult_right_mono)

lemma fmul_nonneg: "0 \<le> x \<Longrightarrow> 0 \<le> r \<Longrightarrow> 0 \<le> fmul x r"
  unfolding fmul_def by (intro fl_nonneg mult_nonneg_nonneg)

lemma fadd_mono: "x \<le> y \<Longrightarrow> fadd f x \<le> fadd f y"
  unfolding fadd_def by (intro fl_mono) simp

lemma fadd_ge: "fl f = f \<Longrightarrow> 0 \<le> p \<Longrightarrow> f \<le> fadd f p"
proof -
  assume f: "fl f = f" and p: "0 \<le> p"
  have "fl f \<le> fl (f + p)" using p by (intro fl_mono) simp
  then show ?thesis by (simp add: fadd_def f)
qed

lemma fsub_of_int:
  "\<bar>m - n\<bar> \<le> 2 ^ 53 \<Longrightarrow> fsub (of_int m) (of_int n) = of_int (m - n)"
  using fl_of_int [of "m - n"] by (simp add: fsub_def)

lemma fl_error: "\<bar>fl x - x\<bar> \<le> ulp x / 2"
proof -
  have "\<bar>of_int (round_half_even (x / ulp x)) - x / ulp x\<bar> \<le> 1/2"
    by (rule round_half_even_close)
  then have "\<bar>of_int (round_half_even (x / ulp x)) - x / ulp x\<bar> * ulp x \<le> 1/2 * ulp x"
    by (intro mult_right_mono) (simp_all add: order.strict_implies_order)
  moreover have "\<bar>of_int (round_half_even (x / ulp x)) - x / ulp x\<bar> * ulp x
                 = \<bar>(of_int (round_half_even (x / ulp x)) - x / ulp x) * ulp x\<bar>"
    using ulp_pos [of x] by (simp add: abs_mult order.strict_implies_order)
  moreover have "(of_int (round_half_even (x / ulp x)) - x / ulp x) * ulp x = fl x - x"
    using ulp_pos [of x] by (simp add: fl_def left_diff_distrib less_imp_neq [THEN not_sym])
  ultimately show ?thesis by simp
qed

lemma py_round2_zero [simp]: "py_round2 0 = 0"
  by (simp add: py_round2_def)

lemma py_round2_mono: "x \<le> y \<Longrightarrow> py_round2 x \<le> py_round2 y"
  unfolding py_round2_def
  by (intro fl_mono divide_right_mono) (simp_all add: round_half_even_mono)

lemma py_round2_nonneg: "0 \<le> x \<Longrightarrow> 0 \<le> py_round2 x"
  using py_round2_mono [of 0 x] by simp

lemma py_round2_cents:
  "\<exists>n::int. py_round2 x = fl (of_int n / 100) \<and> \<bar>of_int n / 100 - x\<bar> \<le> 1/200"
proof -
  have "\<bar>of_int (round_half_even (x * 100)) - x * 100\<bar> \<le> 1/2"
    by (rule round_half_even_close)
  then have "\<bar>of_int (round_half_even (x * 100)) / 100 - x\<bar> \<le> 1/200"
    by (simp add: abs_le_iff field_simps)
  then show ?thesis unfolding py_round2_def by blast
qed

lemma py_round2_of_int:
  "\<bar>n\<bar> \<le> 2 ^ 53 \<Longrightarrow> py_round2 (of_int n) = of_int n"
proof -
  assume n: "\<bar>n\<bar> \<le> 2 ^ 53"
  have "real_of_int n * 100 = real_of_int (n * 100)" by simp
  then have "round_half_even (real_of_int n * 100) = n * 100"
    by (simp only: round_half_even_of_int)
  then show ?thesis using fl_of_int [OF n] by (simp add: py_round2_def)
qed

section \<open>The walk over the tiers\<close>

lemma bracket_loop_step:
  "bracket_loop T tax (b # c # cs) =
     (if threshold b < T then bracket_loop T (tier_tax b (min T (threshold c))) (c # cs)
      else tax)"
  by (simp add: Let_def tier_tax_def)

lemma bracket_loop_stop: "\<not> threshold c < T \<Longrightarrow> bracket_loop T tax (c # cs) = tax"
  by simp

lemma bracket_loop_last:
  "bracket_loop T tax [b] = (if threshold b < T then tier_tax b T else tax)"
  by (simp add: Let_def tier_tax_def)

lemma bracket_loop_first_not_exceeded:
  "(\<forall>b \<in> set brackets. \<not> threshold b < T) \<Longrightarrow> bracket_loop T tax brackets = tax"
  by (cases brackets) auto

text \<open>
  On a table sorted by threshold, the value kept is the one assigned at the last tier whose
  threshold the income exceeds.
\<close>

lemma bracket_loop_applicable_tier:
  assumes "sorted (map threshold bs)" "i < length bs" "threshold (bs ! i) < T"
    and "Suc i < length bs \<longrightarrow> T \<le> threshold (bs ! Suc i)"
  shows "bracket_loop T tax bs = tier_tax (bs ! i) T"
  using assms
proof (induction bs arbitrary: i tax)
  case Nil
  then show ?case by simp
next
  case (Cons b rest)
  show ?case
  proof (cases i)
    case 0
    show ?thesis
    proof (cases rest)
      case Nil
      with 0 Cons.prems show ?thesis by (simp add: tier_tax_def)
    next
      case (Cons c cs)
      with 0 Cons.prems show ?thesis by (simp add: min_def tier_tax_def)
    qed
  next
    case (Suc j)
    with Cons.prems have j: "j < length rest" "threshold (rest ! j) < T"
      "Suc j < length rest \<longrightarrow> T \<le> threshold (rest ! Suc j)" "sorted (map threshold rest)"
      by simp_all
    have "threshold b \<le> threshold (rest ! j)"
      using Cons.prems(1) j(1) by (simp add: nth_mem)
    with j(2) have "threshold b < T" by linarith
    then show ?thesis
      using Cons.IH [OF j(4) j(1) j(2) j(3)] Suc by (simp add: Let_def)
  qed
qed

lemma tier_tax_mono:
  assumes "0 \<le> rate b" "U1 \<le> U2" shows "tier_tax b U1 \<le> tier_tax b U2"
proof -
  have "fsub U1 (threshold b) \<le> fsub U2 (threshold b)" using assms(2) by (rule fsub_mono)
  then have "max 0 (fsub U1 (threshold b)) \<le> max 0 (fsub U2 (threshold b))" by linarith
  then have "fmul (max 0 (fsub U1 (threshold b))) (rate b)
             \<le> fmul (max 0 (fsub U2 (threshold b))) (rate b)"
    using assms(1) by (intro fmul_mono)
  then show ?thesis unfolding tier_tax_def by (rule fadd_mono)
qed

lemma tier_tax_ge_fixed:
  assumes "fl (fixed_or_zero b) = fixed_or_zero b" "0 \<le> rate b"
  shows "fixed_or_zero b \<le> tier_tax b U"
  unfolding tier_tax_def using assms by (intro fadd_ge fmul_nonneg) simp_all

lemma tier_tax_at_next:
  assumes "float_cumulative_fixed (b # c # rest)"
  shows "tier_tax b (threshold c) = fixed_or_zero c"
proof -
  have "threshold b \<le> threshold c" using assms by simp
  then have "0 \<le> fsub (threshold c) (threshold b)" by (rule fsub_nonneg)
  then have "max 0 (fsub (threshold c) (threshold b)) = fsub (threshold c) (threshold b)"
    by simp
  then show ?thesis using assms by (simp add: tier_tax_def)
qed

lemma fixed_is_float:
  assumes "float_cumulative_fixed (b # c # rest)"
  shows "fl (fixed_or_zero c) = fixed_or_zero c"
proof -
  have "fixed_or_zero c
        = fadd (fixed_or_zero b) (fmul (fsub (threshold c) (threshold b)) (rate b))"
    using assms by simp
  then show ?thesis by (simp add: fadd_def)
qed

lemma bracket_loop_lower_bound:
  "float_cumulative_fixed (b # rest) \<Longrightarrow> list_all (\<lambda>b. 0 \<le> rate b) (b # rest)
   \<Longrightarrow> fl (fixed_or_zero b) = fixed_or_zero b
   \<Longrightarrow> threshold b < T \<Longrightarrow> fixed_or_zero b \<le> bracket_loop T tax (b # rest)"
proof (induction rest arbitrary: b tax)
  case Nil
  then have "fixed_or_zero b \<le> tier_tax b T" by (intro tier_tax_ge_fixed) simp_all
  then show ?case using Nil.prems(4) by (simp only: bracket_loop_last if_True)
next
  case (Cons c cs)
  have rb: "0 \<le> rate b" using Cons.prems(2) by simp
  have cf: "float_cumulative_fixed (c # cs)" using Cons.prems(1) by simp
  have ra: "list_all (\<lambda>b. 0 \<le> rate b) (c # cs)" using Cons.prems(2) by simp
  have fc: "fl (fixed_or_zero c) = fixed_or_zero c" using Cons.prems(1) by (rule fixed_is_float)
  show ?case
  proof (cases "threshold c < T")
    case True
    have "fixed_or_zero c \<le> bracket_loop T (tier_tax b (min T (threshold c))) (c # cs)"
      using cf ra fc True by (rule Cons.IH)
    moreover have "fixed_or_zero b \<le> tier_tax b (threshold c)"
      using Cons.prems(3) rb by (rule tier_tax_ge_fixed)
    ultimately show ?thesis
      using Cons.prems(4) tier_tax_at_next [OF Cons.prems(1)]
      by (simp only: bracket_loop_step if_True)
  next
    case False
    have "bracket_loop T tax (b # c # cs) = tier_tax b (min T (threshold c))"
      using Cons.prems(4)
      by (simp only: bracket_loop_step if_True bracket_loop_stop [OF False])
    then show ?thesis using tier_tax_ge_fixed [OF Cons.prems(3) rb] by simp
  qed
qed

lemma bracket_loop_mono:
  "float_cumulative_fixed (b # rest) \<Longrightarrow> list_all (\<lambda>b. 0 \<le> rate b) (b # rest)
   \<Longrightarrow> fl (fixed_or_zero b) = fixed_or_zero b
   \<Longrightarrow> threshold b < T1 \<Longrightarrow> T1 \<le> T2
   \<Longrightarrow> bracket_loop T1 tax1 (b # rest) \<le> bracket_loop T2 tax2 (b # rest)"
proof (induction rest arbitrary: b tax1 tax2)
  case Nil
  have "0 \<le> rate b" using Nil.prems(2) by simp
  then have "tier_tax b T1 \<le> tier_tax b T2" using Nil.prems(5) by (rule tier_tax_mono)
  moreover have "threshold b < T2" using Nil.prems by linarith
  ultimately show ?case using Nil.prems(4) by (simp only: bracket_loop_last if_True)
next
  case (Cons c cs)
  have rb: "0 \<le> rate b" using Cons.prems(2) by simp
  have cf: "float_cumulative_fixed (c # cs)" using Cons.prems(1) by simp
  have ra: "list_all (\<lambda>b. 0 \<le> rate b) (c # cs)" using Cons.prems(2) by simp
  have fc: "fl (fixed_or_zero c) = fixed_or_zero c" using Cons.prems(1) by (rule fixed_is_float)
  have b2: "threshold b < T2" using Cons.prems by linarith
  show ?case
  proof (cases "threshold c < T1")
    case True
    show ?thesis
      using Cons.IH [OF cf ra fc True Cons.prems(5)] Cons.prems(4) b2
      by (simp only: bracket_loop_step if_True)
  next
    case False
    have l1: "bracket_loop T1 tax1 (b # c # cs) = tier_tax b T1"
      using False Cons.prems(4)
      by (simp add: bracket_loop_step bracket_loop_stop [OF False] del: bracket_loop.simps)
    show ?thesis
    proof (cases "threshold c < T2")
      case True
      have "fixed_or_zero c \<le> bracket_loop T2 (tier_tax b (min T2 (threshold c))) (c # cs)"
        using cf ra fc True by (rule bracket_loop_lower_bound)
      then have "fixed_or_zero c \<le> bracket_loop T2 tax2 (b # c # cs)"
        using b2 by (simp only: bracket_loop_step if_True)
      moreover have "tier_tax b T1 \<le> tier_tax b (threshold c)"
        using rb False by (intro tier_tax_mono) simp_all
      ultimately show ?thesis
        using l1 tier_tax_at_next [OF Cons.prems(1)] by linarith
    next
      case F2: False
      have l2: "bracket_loop T2 tax2 (b # c # cs) = tier_tax b T2"
        using F2 b2
        by (simp add: bracket_loop_step bracket_loop_stop [OF F2] del: bracket_loop.simps)
      show ?thesis unfolding l1 l2 using rb Cons.prems(5) by (rule tier_tax_mono)
    qed
  qed
qed

lemma bracket_loop_from_zero_mono:
  assumes "float_cumulative_fixed bs" "list_all (\<lambda>b. 0 \<le> rate b) bs"
    and "case bs of [] \<Rightarrow> True | b # _ \<Rightarrow> fixed_or_zero b = 0" "T1 \<le> T2"
  shows "max 0 (bracket_loop T1 0 bs) \<le> max 0 (bracket_loop T2 0 bs)"
proof (cases bs)
  case Nil
  then show ?thesis by simp
next
  case (Cons b rest)
  have f: "fl (fixed_or_zero b) = fixed_or_zero b" using assms(3) Cons by simp
  show ?thesis
  proof (cases "threshold b < T1")
    case True
    have "bracket_loop T1 0 (b # rest) \<le> bracket_loop T2 0 (b # rest)"
      using assms(1,2) f True assms(4) unfolding Cons by (rule bracket_loop_mono)
    then show ?thesis unfolding Cons by linarith
  next
    case False
    then have "bracket_loop T1 0 bs = 0" unfolding Cons by (rule bracket_loop_stop)
    then show ?thesis by simp
  qed
qed

lemma compute_individual_nonneg: "0 \<le> compute_individual_tax_brackets T bs"
  by (simp add: compute_individual_tax_brackets_def py_round2_nonneg)

lemma default_nth1:
  "default_brackets ! Suc 0 = \<lparr>threshold = 2820000, rate = fl 0.10, fixed = Some 0\<rparr>"
  by (simp add: default_brackets_def)

lemma default_nth2:
  "default_brackets ! Suc (Suc 0) = \<lparr>threshold = 4020000, rate = fl 0.20, fixed = Some 120000\<rparr>"
  by (simp add: default_brackets_def)

lemma default_nth3:
  "default_brackets ! Suc (Suc (Suc 0))
   = \<lparr>threshold = 4920000, rate = fl 0.30, fixed = Some 360000\<rparr>"
  by (simp add: default_brackets_def)

lemma default_nth4:
  "default_brackets ! Suc (Suc (Suc (Suc 0)))
   = \<lparr>threshold = 10000000, rate = fl 0.40, fixed = Some 1830000\<rparr>"
  by (simp add: default_brackets_def)

lemma default_length: "length default_brackets = 5"
  by (simp add: default_brackets_def)

lemma default_sorted: "sorted (map threshold default_brackets)"
  by (simp add: default_brackets_def)

section \<open>The ledger classifier\<close>

lemma select_rows_append:
  "length hits = length cells \<Longrightarrow>
   select_rows (hits @ hits') (cells @ cells') = select_rows hits cells @ select_rows hits' cells'"
  by (simp add: select_rows_def)

lemma select_rows_hit: "select_rows (True # hits) (v # cells) = v # select_rows hits cells"
  by (simp add: select_rows_def)

lemma select_rows_split:
  assumes "length hits = length cells" "j < length cells" "hits ! j"
  shows "select_rows hits cells
         = select_rows (take j hits) (take j cells)
           @ cells ! j # select_rows (drop (Suc j) hits) (drop (Suc j) cells)"
proof -
  have jh: "j < length hits" using assms by simp
  have h: "hits = take j hits @ True # drop (Suc j) hits"
    using id_take_nth_drop [OF jh] assms(3) by simp
  have c: "cells = take j cells @ cells ! j # drop (Suc j) cells"
    using assms(2) by (rule id_take_nth_drop)
  have l: "length (take j hits) = length (take j cells)" using assms(1) by simp
  have "select_rows hits cells
        = select_rows (take j hits @ True # drop (Suc j) hits)
            (take j cells @ cells ! j # drop (Suc j) cells)"
    using h c by simp
  also have "\<dots> = select_rows (take j hits) (take j cells)
                  @ select_rows (True # drop (Suc j) hits) (cells ! j # drop (Suc j) cells)"
    using l by (rule select_rows_append)
  finally show ?thesis by (simp only: select_rows_hit)
qed

lemma matching_row_counted:
  assumes "length accounts = length amounts" "j < length accounts"
    and "str_contains alternatives (accounts ! j)"
  shows "counts_row alternatives accounts amounts j"
proof -
  let ?hits = "map (str_contains alternatives) accounts"
  have "select_rows ?hits amounts
        = select_rows (take j ?hits) (take j amounts)
          @ amounts ! j # select_rows (drop (Suc j) ?hits) (drop (Suc j) amounts)"
    using assms by (intro select_rows_split) simp_all
  then show ?thesis
    by (simp add: counts_row_def bucket_rows_def take_map drop_map)
qed

lemma str_contains_word:
  "k \<in> set alternatives \<Longrightarrow> sublist k (py_lower a) \<Longrightarrow> str_contains alternatives (Some a)"
  by (auto simp add: str_contains_def list_ex_iff)

text \<open>In account/amount mode the five results are the five bucket values.\<close>

lemma auto_map_pl_ledger:
  assumes "cols df ''account'' = Some account_col" "cols df ''amount'' = Some amount_col"
    and "map_of df account_col = Some (Text accounts)" "map_of df amount_col = Some amounts"
    and "auto_map_pl np df = Some (r, c, e, oi, oe)"
  shows "bucket_value np df ''revenue'' revenue_pattern accounts amounts = Some r
       \<and> bucket_value np df ''cogs'' cogs_pattern accounts amounts = Some c
       \<and> bucket_value np df ''operating_expenses'' opex_pattern accounts amounts = Some e
       \<and> bucket_value np df ''other_income'' other_income_pattern accounts amounts = Some oi
       \<and> bucket_value np df ''other_expenses'' other_expenses_pattern accounts amounts
           = Some oe"
  using assms by (auto simp add: auto_map_pl_def bucket_value_def bind_eq_Some_conv)

section \<open>The return builder\<close>

lemma update_fresh: "k \<notin> fst ` set al \<Longrightarrow> AList.update k v al = al @ [(k, v)]"
  by (induction al) auto

lemma build_return_complete:
  assumes "list_all (\<lambda>(f, t). coerced_cell payload f t \<noteq> None) schema"
    and "distinct (map fst schema)" and "fst ` set schema \<inter> fst ` set out = {}"
  shows "\<exists>row. build_return schema payload out = Inr (out @ row)
           \<and> map fst row = map fst schema
           \<and> map (\<lambda>(f, c). Some c) row = map (\<lambda>(f, t). coerced_cell payload f t) schema"
  using assms
proof (induction schema arbitrary: out)
  case Nil
  then show ?case by simp
next
  case (Cons ft schema)
  obtain f t where ft: "ft = (f, t)" by (cases ft)
  from Cons.prems(1) ft obtain v c where v: "map_of payload f = Some v" and c: "coerce t v = Inr c"
    by (auto simp add: coerced_cell_def split: option.splits sum.splits)
  have fresh: "f \<notin> fst ` set out" using Cons.prems(3) ft by auto
  have "\<exists>row. build_return schema payload (out @ [(f, c)]) = Inr ((out @ [(f, c)]) @ row)
           \<and> map fst row = map fst schema
           \<and> map (\<lambda>(f, c). Some c) row = map (\<lambda>(f, t). coerced_cell payload f t) schema"
  proof (rule Cons.IH)
    show "list_all (\<lambda>(f, t). coerced_cell payload f t \<noteq> None) schema"
      using Cons.prems(1) by simp
    show "distinct (map fst schema)" using Cons.prems(2) by simp
    show "fst ` set schema \<inter> fst ` set (out @ [(f, c)]) = {}"
      using Cons.prems(2,3) ft by auto
  qed
  then obtain row where row: "build_return schema payload (out @ [(f, c)]) = Inr (out @ (f, c) # row)"
    "map fst row = map fst schema"
    "map (\<lambda>(f, c). Some c) row = map (\<lambda>(f, t). coerced_cell payload f t) schema"
    by auto
  have "build_return (ft # schema) payload out = Inr (out @ (f, c) # row)"
    using ft v c row(1) by (simp add: update_fresh [OF fresh])
  moreover have "coerced_cell payload f t = Some c"
    using v c by (simp add: coerced_cell_def)
  ultimately show ?case using row(2,3) ft
    by (intro exI [of _ "(f, c) # row"]) simp
qed

lemma build_return_payload_map:
  "map_of payload' = map_of payload \<Longrightarrow>
   build_return schema payload' out = build_return schema payload out"
  by (induction schema arbitrary: out) (auto split: option.splits sum.splits)

lemma build_return_first_missing:
  assumes "list_all (\<lambda>(g, u). coerced_cell payload g u \<noteq> None) pre"
    and "map_of payload f = None"
  shows "build_return (pre @ (f, t) # post) payload out
         = Inl (ValueError (''Missing required field: '' @ f))"
  using assms
proof (induction pre arbitrary: out)
  case Nil
  then show ?case by simp
next
  case (Cons gu pre)
  obtain g u where gu: "gu = (g, u)" by (cases gu)
  from Cons.prems(1) gu obtain v c where "map_of payload g = Some v" "coerce u v = Inr c"
    by (auto simp add: coerced_cell_def split: option.splits sum.splits)
  then show ?case using Cons gu by simp
qed

lemma build_return_missing_fails:
  "(\<exists>(f, t) \<in> set schema. map_of payload f = None) \<Longrightarrow>
   \<exists>e. build_return schema payload out = Inl e"
proof (induction schema arbitrary: out)
  case Nil
  then show ?case by simp
next
  case (Cons ft schema)
  obtain f t where ft: "ft = (f, t)" by (cases ft)
  show ?case
  proof (cases "map_of payload f")
    case None
    then show ?thesis using ft by simp
  next
    case (Some v)
    then have rest: "\<exists>(f, t) \<in> set schema. map_of payload f = None"
      using Cons.prems ft by auto
    show ?thesis
    proof (cases "coerce t v")
      case (Inl e)
      then show ?thesis using ft Some by simp
    next
      case (Inr c)
      then show ?thesis using ft Some Cons.IH [OF rest] by simp
    qed
  qed
qed

lemma registered_schema_distinct:
  "map_of URA_SCHEMAS form_code = Some schema \<Longrightarrow> distinct (map fst schema)"
  by (auto simp add: URA_SCHEMAS_def split: if_splits)

lemma validate_registered:
  "map_of URA_SCHEMAS form_code = Some schema \<Longrightarrow>
   validate_and_build_return form_code payload = build_return schema payload []"
  by (simp only: validate_and_build_return_def option.case)

lemma validate_complete:
  assumes "map_of URA_SCHEMAS form_code = Some schema"
    and "list_all (\<lambda>(f, t). coerced_cell payload f t \<noteq> None) schema"
  shows "\<exists>row. validate_and_build_return form_code payload = Inr row
              \<and> map fst row = map fst schema
              \<and> map (\<lambda>(f, c). Some c) row = map (\<lambda>(f, t). coerced_cell payload f t) schema"
proof -
  have d: "distinct (map fst schema)" using assms(1) by (rule registered_schema_distinct)
  have "\<exists>row. build_return schema payload [] = Inr ([] @ row)
           \<and> map fst row = map fst schema
           \<and> map (\<lambda>(f, c). Some c) row = map (\<lambda>(f, t). coerced_cell payload f t) schema"
    using assms(2) d by (rule build_return_complete) simp
  then show ?thesis
    unfolding validate_registered [OF assms(1)] by simp
qed

lemma payload_permutation:
  assumes "distinct (map fst payload)" "mset payload' = mset payload"
  shows "map_of payload' = map_of payload"
proof -
  have "mset (map fst payload') = mset (map fst payload)" using assms(2) by simp
  then have "distinct (map fst payload') \<longleftrightarrow> distinct (map fst payload)"
    by (rule mset_eq_imp_distinct_iff)
  then have "distinct (map fst payload')" using assms(1) by blast
  moreover have "set payload' = set payload" using assms(2) by (rule mset_eq_setD)
  ultimately show ?thesis using assms(1) by (simp add: map_of_inject_set)
qed

lemma validate_order_independent:
  assumes "distinct (map fst payload)" "mset payload' = mset payload"
  shows "validate_and_build_return form_code payload'
            = validate_and_build_return form_code payload"
proof (cases "map_of URA_SCHEMAS form_code")
  case None
  then show ?thesis by (simp only: validate_and_build_return_def option.case)
next
  case (Some schema)
  show ?thesis
    unfolding validate_registered [OF Some]
    using payload_permutation [OF assms] by (rule build_return_payload_map)
qed

lemma validate_first_missing:
  assumes "map_of URA_SCHEMAS form_code = Some schema"
    and "schema = pre @ (f, t) # post" "map_of payload f = None"
    and "list_all (\<lambda>(g, u). coerced_cell payload g u \<noteq> None) pre"
  shows "validate_and_build_return form_code payload
            = Inl (ValueError (''Missing required field: '' @ f))"
  unfolding validate_registered [OF assms(1)] assms(2)
  using assms(4,3) by (rule build_return_first_missing)

lemma validate_missing_fails:
  assumes "map_of URA_SCHEMAS form_code = Some schema"
    and "\<exists>(f, t) \<in> set schema. map_of payload f = None"
  shows "\<exists>e. validate_and_build_return form_code payload = Inl e"
  unfolding validate_registered [OF assms(1)]
  using assms(2) by (rule build_return_missing_fails)

section \<open>Evaluations\<close>

text \<open>Products of the calculators, each rounded once.\<close>

lemma fmul_1200000_0_10: "fmul 1200000 (fl (1 / 10)) = 120000"
  unfolding fmul_def fl_0_10
  by (subst fl_eval [where k = "- 36"]) (simp_all add: round_half_even_def Let_def)

lemma fmul_900000_0_20: "fmul 900000 (fl (1 / 5)) = 180000"
  unfolding fmul_def fl_0_20
  by (subst fl_eval [where k = "- 35"]) (simp_all add: round_half_even_def Let_def)

lemma fmul_80000_0_30: "fmul 80000 (fl (3 / 10)) = 24000"
  unfolding fmul_def fl_0_30
  by (subst fl_eval [where k = "- 38"]) (simp_all add: round_half_even_def Let_def)

lemma fmul_5080000_0_30: "fmul 5080000 (fl (3 / 10)) = 1524000"
  unfolding fmul_def fl_0_30
  by (subst fl_eval [where k = "- 32"]) (simp_all add: round_half_even_def Let_def)

lemma fmul_minus_1000_0_30: "fmul (- 1000) (fl (3 / 10)) = - 300"
  unfolding fmul_def fl_0_30
  by (subst fl_eval [where k = "- 44"]) (simp_all add: round_half_even_def Let_def)

lemma fmul_100000000_0_30: "fmul 100000000 (fl (3 / 10)) = 30000000"
  unfolding fmul_def fl_0_30
  by (subst fl_eval [where k = "- 28"]) (simp_all add: round_half_even_def Let_def)

lemma fmul_1000002_75_0_30:
  "fmul (4000011 / 4) (fl (3 / 10)) = 5153974928592077 / 17179869184"
  unfolding fmul_def fl_0_30
  by (subst fl_eval [where k = "- 34"]) (simp_all add: round_half_even_def Let_def)

lemma foldl_fadd_zeros: "foldl fadd 0 (replicate n 0) = 0"
  by (induction n) (simp_all add: fadd_def)

lemma add_chain_zeros: "add_chain (replicate n 0) = 0"
  by (cases n) (simp_all add: add_chain_def foldl_fadd_zeros)

lemma tier_tax_default_1: "tier_tax (default_brackets ! Suc 0) 4020000 = 120000"
  by (simp add: default_nth1 tier_tax_def fixed_or_zero_def fsub_def fadd_def fl_numeral
      fmul_1200000_0_10)

lemma tier_tax_default_2: "tier_tax (default_brackets ! Suc (Suc 0)) 4920000 = 300000"
  by (simp add: default_nth2 tier_tax_def fixed_or_zero_def fsub_def fadd_def fl_numeral
      fmul_900000_0_20)

lemma tier_tax_default_3: "tier_tax (default_brackets ! Suc (Suc (Suc 0))) 5000000 = 384000"
  by (simp add: default_nth3 tier_tax_def fixed_or_zero_def fsub_def fadd_def fl_numeral
      fmul_80000_0_30)

lemma py_round2_numeral:
  "(numeral k :: int) \<le> 2 ^ 53 \<Longrightarrow> py_round2 (numeral k) = numeral k"
  using py_round2_of_int [of "numeral k"] by simp

text \<open>The credits step on whole amounts, and two runs of it on amounts that are not whole.\<close>

lemma credits_whole:
  assumes "0 \<le> G" "G \<le> 2 ^ 53" "0 \<le> W" "0 \<le> F" "0 \<le> R" "W + F + R \<le> 2 ^ 53"
  shows "apply_credits_and_rebates (of_int G) (of_int W) (of_int F) (of_int R)
         = max 0 (of_int (G - (W + F + R)))"
proof -
  have a: "fsub (of_int G) (of_int W) = of_int (G - W)"
    using assms by (intro fsub_of_int) (simp add: abs_le_iff)
  have b: "fsub (of_int (G - W)) (of_int F) = of_int (G - W - F)"
    using assms by (intro fsub_of_int) (simp add: abs_le_iff)
  have c: "fsub (of_int (G - W - F)) (of_int R) = of_int (G - W - F - R)"
    using assms by (intro fsub_of_int) (simp add: abs_le_iff)
  have "G - W - F - R = G - (W + F + R)" by simp
  then show ?thesis
    unfolding apply_credits_and_rebates_def a b c by simp
qed

lemma fl_0_70: "fl (7 / 10) = 3152519739159347 / 4503599627370496"
  by (subst fl_eval [where k = "- 53"]) (simp_all add: round_half_even_def Let_def)

lemma credits_a1: "fsub 1 (fl (7 / 10)) = 1351079888211149 / 4503599627370496"
  unfolding fsub_def fl_0_70
  by (subst fl_eval [where k = "- 54"]) (simp_all add: round_half_even_def Let_def)

lemma credits_a2:
  "fsub (1351079888211149 / 4503599627370496) (fl (1 / 5))
   = 1801439850948199 / 18014398509481984"
  unfolding fsub_def fl_0_20
  by (subst fl_eval [where k = "- 56"]) (simp_all add: round_half_even_def Let_def)

lemma credits_a3:
  "fsub (1801439850948199 / 18014398509481984) (fl (1 / 10)) = 1 / 36028797018963968"
  unfolding fsub_def fl_0_10
  by (subst fl_eval [where k = "- 107"]) (simp_all add: round_half_even_def Let_def)

lemma credits_b1: "fsub 1 (fl (1 / 10)) = 8106479329266893 / 9007199254740992"
  unfolding fsub_def fl_0_10
  by (subst fl_eval [where k = "- 53"]) (simp_all add: round_half_even_def Let_def)

lemma credits_b2:
  "fsub (8106479329266893 / 9007199254740992) (fl (1 / 5))
   = 3152519739159347 / 4503599627370496"
  unfolding fsub_def fl_0_20
  by (subst fl_eval [where k = "- 53"]) (simp_all add: round_half_even_def Let_def)

text \<open>
  The table \<open>[(0, 0.1, 0), (1.05, 0, 0.105)]\<close> once loaded, at the incomes 1.05 and 1.06.
\<close>

lemma fl_1_05: "fl (21 / 20) = 4728779608739021 / 4503599627370496"
  by (subst fl_eval [where k = "- 52"]) (simp_all add: round_half_even_def Let_def)

lemma fl_1_06: "fl (53 / 50) = 2386907802506363 / 2251799813685248"
  by (subst fl_eval [where k = "- 52"]) (simp_all add: round_half_even_def Let_def)

lemma fl_0_105: "fl (21 / 200) = 7566047373982433 / 72057594037927936"
  by (subst fl_eval [where k = "- 56"]) (simp_all add: round_half_even_def Let_def)

lemma fl_0_11: "fl (11 / 100) = 7926335344172073 / 72057594037927936"
  by (subst fl_eval [where k = "- 56"]) (simp_all add: round_half_even_def Let_def)

lemma fmul_1_05_0_10:
  "fmul (fl (21 / 20)) (fl (1 / 10)) = 3783023686991217 / 36028797018963968"
  unfolding fmul_def fl_1_05 fl_0_10
  by (subst fl_eval [where k = "- 56"]) (simp_all add: round_half_even_def Let_def)

lemma loaded_table_at_1_05:
  "compute_individual_tax_brackets (fl (21 / 20))
     [\<lparr>threshold = 0, rate = fl (1 / 10), fixed = Some 0\<rparr>,
      \<lparr>threshold = fl (21 / 20), rate = 0, fixed = Some (fl (21 / 200))\<rparr>]
   = fl (11 / 100)"
proof -
  let ?b = "\<lparr>threshold = 0, rate = fl (1 / 10), fixed = Some (0::real)\<rparr>"
  let ?c = "\<lparr>threshold = fl (21 / 20), rate = 0, fixed = Some (fl (21 / 200))\<rparr>"
  have p: "0 < fl (21 / 20)" by (simp add: fl_1_05)
  have "bracket_loop (fl (21 / 20)) 0 [?b, ?c] = tier_tax ?b (fl (21 / 20))"
    using p by (simp add: bracket_loop_step bracket_loop_stop del: bracket_loop.simps)
  also have "\<dots> = fmul (fl (21 / 20)) (fl (1 / 10))"
    using p by (simp add: tier_tax_def fixed_or_zero_def fsub_def fadd_def fmul_def)
  finally have l: "bracket_loop (fl (21 / 20)) 0 [?b, ?c]
                   = 3783023686991217 / 36028797018963968"
    by (simp only: fmul_1_05_0_10)
  have "py_round2 (3783023686991217 / 36028797018963968) = fl (11 / 100)"
    by (simp add: py_round2_def round_half_even_def Let_def)
  then show ?thesis
    using p by (simp add: compute_individual_tax_brackets_def l del: bracket_loop.simps)
qed

lemma loaded_table_at_1_06:
  "compute_individual_tax_brackets (fl (53 / 50))
     [\<lparr>threshold = 0, rate = fl (1 / 10), fixed = Some 0\<rparr>,
      \<lparr>threshold = fl (21 / 20), rate = 0, fixed = Some (fl (21 / 200))\<rparr>]
   = fl (1 / 10)"
proof -
  let ?b = "\<lparr>threshold = 0, rate = fl (1 / 10), fixed = Some (0::real)\<rparr>"
  let ?c = "\<lparr>threshold = fl (21 / 20), rate = 0, fixed = Some (fl (21 / 200))\<rparr>"
  have p: "0 < fl (53 / 50)" "fl (21 / 20) < fl (53 / 50)" by (simp_all add: fl_1_05 fl_1_06)
  have "bracket_loop (fl (53 / 50)) 0 [?b, ?c] = tier_tax ?c (fl (53 / 50))"
    using p by (simp add: bracket_loop_step bracket_loop_last del: bracket_loop.simps)
  also have "\<dots> = fl (21 / 200)"
    by (simp add: tier_tax_def fixed_or_zero_def fadd_def fmul_def)
  finally have l: "bracket_loop (fl (53 / 50)) 0 [?b, ?c] = fl (21 / 200)" .
  have "py_round2 (fl (21 / 200)) = fl (1 / 10)"
    by (simp add: fl_0_105) (simp add: py_round2_def round_half_even_def Let_def)
  moreover have "0 \<le> fl (21 / 200)" by (simp add: fl_0_105)
  ultimately show ?thesis
    using p by (simp add: compute_individual_tax_brackets_def l del: bracket_loop.simps)
qed

text \<open>The default table just above its last threshold.\<close>

lemma fadd_1830000_0_40: "fadd 1830000 (fl (2 / 5)) = 3929895934833459 / 2147483648"
  unfolding fadd_def fl_0_40
  by (subst fl_eval [where k = "- 32"]) (simp_all add: round_half_even_def Let_def)

lemma tier_tax_default_3_top:
  "tier_tax (default_brackets ! Suc (Suc (Suc 0))) 10000000 = 1884000"
  by (simp add: default_nth3 tier_tax_def fixed_or_zero_def fsub_def fadd_def fl_numeral
      fmul_5080000_0_30)

lemma tier_tax_default_4:
  "tier_tax (default_brackets ! Suc (Suc (Suc (Suc 0)))) 10000001
   = 3929895934833459 / 2147483648"
  by (simp add: default_nth4 tier_tax_def fixed_or_zero_def fsub_def fl_numeral fmul_def
      fadd_1830000_0_40)

section \<open>Claims\<close>

text \<open>
  C3. On a table sorted ascending by threshold, a taxable income equal to the threshold of
  tier \<open>i + 1\<close> is taxed by the formula of the tier below it, tier \<open>i\<close> (the comparison
  \<open>taxable_income > threshold\<close> is strict). With the default table, 4,020,000 is taxed by
  the 10 percent tier and gives 120,000.00, which is also what
  120,000 + 0.20 * (4,020,000 - 4,020,000) evaluates to; 4,920,000 is taxed by the 20
  percent tier and gives 300,000.00.
\<close>

theorem exact_threshold_lower_tier:
  assumes "sorted (map threshold bs)" "Suc i < length bs"
    and "threshold (bs ! i) < threshold (bs ! Suc i)"
    and "T = threshold (bs ! Suc i)" "0 < T"
  shows "compute_individual_tax_brackets T bs =
         py_round2 (max 0 (fadd (fixed_or_zero (bs ! i))
                             (fmul (fsub T (threshold (bs ! i))) (rate (bs ! i)))))"
proof -
  have "bracket_loop T 0 bs = tier_tax (bs ! i) T"
    using assms by (intro bracket_loop_applicable_tier) simp_all
  moreover have "0 \<le> fsub T (threshold (bs ! i))"
    using assms by (intro fsub_nonneg) simp
  then have "max 0 (fsub T (threshold (bs ! i))) = fsub T (threshold (bs ! i))"
    by simp
  ultimately show ?thesis
    using assms(5) by (simp add: compute_individual_tax_brackets_def tier_tax_def)
qed

theorem exact_threshold_lower_tier_witness:
  "compute_individual_tax_brackets 4020000 default_brackets
     = py_round2 (max 0 (fadd 0 (fmul (fsub 4020000 2820000) (fl 0.10))))
   \<and> compute_individual_tax_brackets 4020000 default_brackets = 120000
   \<and> (120000::real) = 120000 + 0.20 * (4020000 - 4020000)
   \<and> compute_individual_tax_brackets 4920000 default_brackets = 300000"
proof -
  have a: "compute_individual_tax_brackets 4020000 default_brackets =
         py_round2 (max 0 (fadd (fixed_or_zero (default_brackets ! Suc 0))
            (fmul (fsub 4020000 (threshold (default_brackets ! Suc 0)))
              (rate (default_brackets ! Suc 0)))))"
    by (rule exact_threshold_lower_tier)
       (simp_all add: default_sorted default_nth1 default_nth2, simp add: default_brackets_def)
  have b: "py_round2 (max 0 (fadd 0 (fmul (fsub 4020000 2820000) (fl 0.10)))) = 120000"
    by (simp add: fsub_def fadd_def fl_numeral fmul_1200000_0_10 py_round2_numeral)
  have "bracket_loop 4920000 0 default_brackets
        = tier_tax (default_brackets ! Suc (Suc 0)) 4920000"
    by (rule bracket_loop_applicable_tier)
       (simp_all add: default_sorted default_nth2 default_nth3 default_length)
  then have c: "compute_individual_tax_brackets 4920000 default_brackets = 300000"
    by (simp add: compute_individual_tax_brackets_def tier_tax_default_2 py_round2_numeral)
  from a b c show ?thesis
    by (simp add: default_nth1 fixed_or_zero_def)
qed

text \<open>
  C4. With the default tier table, a taxable income of 5,000,000 gives a gross tax of
  384,000.00, which is 360,000 + 0.30 * (5,000,000 - 4,920,000).
\<close>

theorem default_brackets_5000000:
  "compute_individual_tax_brackets 5000000 default_brackets = 384000
   \<and> (384000::real) = 360000 + 0.30 * (5000000 - 4920000)"
proof -
  have "bracket_loop 5000000 0 default_brackets
        = tier_tax (default_brackets ! Suc (Suc (Suc 0))) 5000000"
    by (rule bracket_loop_applicable_tier)
       (simp_all add: default_sorted default_nth3 default_nth4 default_length)
  then have "compute_individual_tax_brackets 5000000 default_brackets = 384000"
    by (simp add: compute_individual_tax_brackets_def tier_tax_default_3 py_round2_numeral)
  then show ?thesis by simp
qed

text \<open>
  C1. In tab 3 of mvp_streamlit_app.py the chargeable income, the taxable income, the net
  tax payable and the net tax after provisional payments are never negative, whatever the
  inputs.
\<close>

theorem tab3_floor_invariant:
  "0 \<le> chargeable_income (tab3 inp) \<and> 0 \<le> adjusted_taxable_income (tab3 inp)
   \<and> 0 \<le> net_tax_payable (tab3 inp) \<and> 0 \<le> net_tax_after_provisional (tab3 inp)"
  by (simp add: tab3_def Let_def apply_credits_and_rebates_def)

text \<open>
  The flat 30 percent script of uganda_tax_full_mvp.py with a profit of 0, no addbacks and
  wear and tear of 1,000: the chargeable income is -1,000 and the final tax -300.
\<close>

theorem full_mvp_negative_balance:
  "full_mvp_chargeable_income 0 (replicate 30 0) [1000, 0, 0, 0, 0, 0, 0] = - 1000
   \<and> full_mvp_final_tax 0 (replicate 30 0) [1000, 0, 0, 0, 0, 0, 0] 0 0 = - 300
   \<and> \<not> 0 \<le> full_mvp_chargeable_income 0 (replicate 30 0) [1000, 0, 0, 0, 0, 0, 0]"
proof -
  have a: "add_chain [1000, 0, 0, 0, 0, 0, 0] = 1000"
    by (simp add: add_chain_def fadd_def fl_numeral)
  have c: "full_mvp_chargeable_income 0 (replicate 30 0) [1000, 0, 0, 0, 0, 0, 0] = - 1000"
    by (simp add: full_mvp_chargeable_income_def Let_def add_chain_zeros a fadd_def fsub_def
        fl_minus fl_numeral)
  have r: "py_round2 (- 300) = - 300"
    using py_round2_of_int [of "- 300"] by simp
  have "full_mvp_final_tax 0 (replicate 30 0) [1000, 0, 0, 0, 0, 0, 0] 0 0 = - 300"
    by (simp add: full_mvp_final_tax_def Let_def c fmul_minus_1000_0_30 r fsub_def fl_minus
        fl_numeral)
  with c show ?thesis by simp
qed




text \<open>
  C10. On an empty tier table the progressive calculator returns 0 for every taxable
  income, and so it does whenever no tier has a threshold strictly below the income.
\<close>

theorem no_tier_below_gives_zero:
  "compute_individual_tax_brackets T [] = 0
   \<and> ((\<forall>b \<in> set brackets. \<not> threshold b < T) \<longrightarrow> compute_individual_tax_brackets T brackets = 0)"
  by (simp add: compute_individual_tax_brackets_def bracket_loop_first_not_exceeded)

theorem no_tier_below_gives_zero_witness:
  "compute_individual_tax_brackets 5000000 [] = 0
   \<and> compute_individual_tax_brackets 100
        [\<lparr>threshold = 100, rate = fl 0.10, fixed = Some 50\<rparr>,
         \<lparr>threshold = 200, rate = fl 0.20, fixed = Some 60\<rparr>] = 0"
  using no_tier_below_gives_zero [of 5000000 "[]"]
    no_tier_below_gives_zero [of 100 "[\<lparr>threshold = 100, rate = fl 0.10, fixed = Some 50\<rparr>,
         \<lparr>threshold = 200, rate = fl 0.20, fixed = Some 60\<rparr>]"]
  by simp

text \<open>
  C6. The company gross tax is \<open>round(T * rate, 2)\<close> for \<open>T > 0\<close> and a rate in \<open>[0, 1]\<close>,
  in float arithmetic: the product is the float nearest to \<open>T * rate\<close>, and the result is
  the float nearest to a multiple of 0.01 that lies within 0.005 of that product; it is
  never negative. It is 0 for \<open>T \<le> 0\<close>. At 100,000,000 and 0.30 it is 30,000,000.00.
\<close>

theorem company_tax_flat_rate:
  "(0 < T \<and> 0 \<le> r \<and> r \<le> 1 \<longrightarrow>
      compute_company_tax T r = py_round2 (fmul T r)
      \<and> \<bar>fmul T r - T * r\<bar> \<le> ulp (T * r) / 2
      \<and> (\<exists>n::int. compute_company_tax T r = fl (of_int n / 100)
                   \<and> \<bar>of_int n / 100 - fmul T r\<bar> \<le> 1/200)
      \<and> 0 \<le> compute_company_tax T r)
   \<and> (T \<le> 0 \<longrightarrow> compute_company_tax T r = 0)
   \<and> compute_company_tax 100000000 (fl 0.30) = 30000000"
proof (intro conjI impI)
  assume a: "0 < T \<and> 0 \<le> r \<and> r \<le> 1"
  then show e: "compute_company_tax T r = py_round2 (fmul T r)"
    by (simp add: compute_company_tax_def)
  show "\<bar>fmul T r - T * r\<bar> \<le> ulp (T * r) / 2"
    unfolding fmul_def by (rule fl_error)
  show "\<exists>n::int. compute_company_tax T r = fl (of_int n / 100)
                   \<and> \<bar>of_int n / 100 - fmul T r\<bar> \<le> 1/200"
    unfolding e by (rule py_round2_cents)
  have "0 \<le> fmul T r" using a by (intro fmul_nonneg) simp_all
  then show "0 \<le> compute_company_tax T r" unfolding e by (rule py_round2_nonneg)
next
  assume "T \<le> 0"
  then show "compute_company_tax T r = 0" by (simp add: compute_company_tax_def)
next
  show "compute_company_tax 100000000 (fl 0.30) = 30000000"
    by (simp add: compute_company_tax_def fmul_100000000_0_30 py_round2_numeral)
qed

theorem company_tax_flat_rate_witness:
  "compute_company_tax 100000000 (fl 0.30) = py_round2 (fmul 100000000 (fl 0.30))
   \<and> compute_company_tax 100000000 (fl 0.30) = 30000000
   \<and> compute_company_tax 0 (fl 0.30) = 0 \<and> compute_company_tax (- 5) (fl 0.30) = 0
   \<and> compute_company_tax 1000002.75 (fl 0.30) = py_round2 (fmul 1000002.75 (fl 0.30))
   \<and> compute_company_tax 1000002.75 (fl 0.30) = fl 300000.83"
proof -
  have r: "(0::real) \<le> fl 0.30 \<and> fl 0.30 \<le> 1" by (simp add: fl_0_30)
  have a: "compute_company_tax 100000000 (fl 0.30) = py_round2 (fmul 100000000 (fl 0.30))"
    "compute_company_tax 100000000 (fl 0.30) = 30000000"
    using company_tax_flat_rate [of 100000000 "fl 0.30"] r by simp_all
  have c: "compute_company_tax 0 (fl 0.30) = 0" "compute_company_tax (- 5) (fl 0.30) = 0"
    using company_tax_flat_rate [of 0 "fl 0.30"] company_tax_flat_rate [of "- 5" "fl 0.30"]
    by simp_all
  have d: "compute_company_tax 1000002.75 (fl 0.30) = py_round2 (fmul 1000002.75 (fl 0.30))"
    using company_tax_flat_rate [of "1000002.75" "fl 0.30"] r by simp
  have "py_round2 (fmul 1000002.75 (fl 0.30)) = fl 300000.83"
    by (simp add: fmul_1000002_75_0_30) (simp add: py_round2_def round_half_even_def Let_def)
  with a c d show ?thesis by simp
qed

text \<open>
  C7. The credits step returns \<open>max(0, ((gross - wht) - foreign) - rebates)\<close>, the three
  amounts subtracted one after the other, each difference rounded to a float; the result is
  never negative, an excess being dropped. For whole amounts (gross tax up to \<open>2^53\<close>,
  credits adding up to at most \<open>2^53\<close>) every difference is exact: the result is
  \<open>max(0, gross - (wht + foreign + rebates))\<close> and does not depend on the order of the
  three amounts. Gross tax 1,000,000 with credits 600,000, 300,000 and 200,000 gives 0.
\<close>

theorem credits_and_rebates_flat_sum:
  "apply_credits_and_rebates g w f r = max 0 (fsub (fsub (fsub g w) f) r)
   \<and> 0 \<le> apply_credits_and_rebates g w f r
   \<and> (0 \<le> G \<and> G \<le> 2 ^ 53 \<and> 0 \<le> W \<and> 0 \<le> F \<and> 0 \<le> R \<and> W + F + R \<le> 2 ^ 53 \<longrightarrow>
        apply_credits_and_rebates (of_int G) (of_int W) (of_int F) (of_int R)
          = max 0 (of_int G - (of_int W + of_int F + of_int R))
        \<and> apply_credits_and_rebates (of_int G) (of_int W) (of_int F) (of_int R)
          = apply_credits_and_rebates (of_int G) (of_int F) (of_int W) (of_int R)
        \<and> apply_credits_and_rebates (of_int G) (of_int W) (of_int F) (of_int R)
          = apply_credits_and_rebates (of_int G) (of_int R) (of_int F) (of_int W)
        \<and> apply_credits_and_rebates (of_int G) (of_int W) (of_int F) (of_int R)
          = apply_credits_and_rebates (of_int G) (of_int W) (of_int R) (of_int F))
   \<and> apply_credits_and_rebates 1000000 600000 300000 200000 = 0"
proof (intro conjI impI)
  show "apply_credits_and_rebates g w f r = max 0 (fsub (fsub (fsub g w) f) r)"
    by (simp add: apply_credits_and_rebates_def)
  show "0 \<le> apply_credits_and_rebates g w f r"
    by (simp add: apply_credits_and_rebates_def)
  show "apply_credits_and_rebates 1000000 600000 300000 200000 = 0"
    using credits_whole [of 1000000 600000 300000 200000] by simp
next
  assume a: "0 \<le> G \<and> G \<le> 2 ^ 53 \<and> 0 \<le> W \<and> 0 \<le> F \<and> 0 \<le> R \<and> W + F + R \<le> 2 ^ 53"
  have wfr: "apply_credits_and_rebates (of_int G) (of_int W) (of_int F) (of_int R)
             = max 0 (of_int (G - (W + F + R)))"
    using a by (intro credits_whole) simp_all
  have fwr: "apply_credits_and_rebates (of_int G) (of_int F) (of_int W) (of_int R)
             = max 0 (of_int (G - (F + W + R)))"
    using a by (intro credits_whole) simp_all
  have rfw: "apply_credits_and_rebates (of_int G) (of_int R) (of_int F) (of_int W)
             = max 0 (of_int (G - (R + F + W)))"
    using a by (intro credits_whole) simp_all
  have wrf: "apply_credits_and_rebates (of_int G) (of_int W) (of_int R) (of_int F)
             = max 0 (of_int (G - (W + R + F)))"
    using a by (intro credits_whole) simp_all
  show "apply_credits_and_rebates (of_int G) (of_int W) (of_int F) (of_int R)
          = max 0 (of_int G - (of_int W + of_int F + of_int R))"
    unfolding wfr by simp
  show "apply_credits_and_rebates (of_int G) (of_int W) (of_int F) (of_int R)
          = apply_credits_and_rebates (of_int G) (of_int F) (of_int W) (of_int R)"
    unfolding wfr fwr by (simp add: add.commute)
  show "apply_credits_and_rebates (of_int G) (of_int W) (of_int F) (of_int R)
          = apply_credits_and_rebates (of_int G) (of_int R) (of_int F) (of_int W)"
    unfolding wfr rfw by (simp add: add.commute add.left_commute)
  show "apply_credits_and_rebates (of_int G) (of_int W) (of_int F) (of_int R)
          = apply_credits_and_rebates (of_int G) (of_int W) (of_int R) (of_int F)"
    unfolding wfr wrf by (simp add: add.commute add.left_commute)
qed

theorem credits_and_rebates_flat_sum_witness:
  "apply_credits_and_rebates 1000000 600000 300000 200000
     = max 0 (1000000 - (600000 + 300000 + 200000))
   \<and> apply_credits_and_rebates 1000000 600000 300000 200000 = 0
   \<and> apply_credits_and_rebates 1000000 100000 200000 300000 = 400000
   \<and> apply_credits_and_rebates 1000000 300000 200000 100000 = 400000"
proof -
  have h: "(0::int) \<le> 1000000 \<and> (1000000::int) \<le> 2 ^ 53 \<and> (0::int) \<le> 600000
           \<and> (0::int) \<le> 300000 \<and> (0::int) \<le> 200000
           \<and> (600000::int) + 300000 + 200000 \<le> 2 ^ 53" by simp
  have k: "(0::int) \<le> 1000000 \<and> (1000000::int) \<le> 2 ^ 53 \<and> (0::int) \<le> 100000
           \<and> (0::int) \<le> 200000 \<and> (0::int) \<le> 300000
           \<and> (100000::int) + 200000 + 300000 \<le> 2 ^ 53" by simp
  have a: "apply_credits_and_rebates 1000000 600000 300000 200000
           = max 0 (1000000 - (600000 + 300000 + 200000))"
    using credits_and_rebates_flat_sum [of 0 0 0 0 1000000 600000 300000 200000] h by simp
  have b: "apply_credits_and_rebates 1000000 100000 200000 300000
           = max 0 (1000000 - (100000 + 200000 + 300000))"
    "apply_credits_and_rebates 1000000 100000 200000 300000
           = apply_credits_and_rebates 1000000 300000 200000 100000"
    using credits_and_rebates_flat_sum [of 0 0 0 0 1000000 100000 200000 300000] k by simp_all
  from a b show ?thesis by simp
qed

text \<open>
  Gross tax 1.0 with the credits 0.7, 0.2 and 0.1, which add up to 1.0: the step leaves
  \<open>2^-55\<close> (about 2.8e-17), not 0, and it leaves 0 when the same three amounts are entered
  as 0.1, 0.2 and 0.7.
\<close>

theorem credits_order_matters:
  "apply_credits_and_rebates 1 (fl 0.7) (fl 0.2) (fl 0.1) = 1 / 2 ^ 55
   \<and> apply_credits_and_rebates 1 (fl 0.1) (fl 0.2) (fl 0.7) = 0
   \<and> apply_credits_and_rebates 1 (fl 0.7) (fl 0.2) (fl 0.1)
     \<noteq> apply_credits_and_rebates 1 (fl 0.1) (fl 0.2) (fl 0.7)
   \<and> apply_credits_and_rebates 1 (fl 0.7) (fl 0.2) (fl 0.1)
     \<noteq> max 0 (1 - (0.7 + 0.2 + 0.1))"
proof -
  have a: "apply_credits_and_rebates 1 (fl 0.7) (fl 0.2) (fl 0.1) = 1 / 2 ^ 55"
    by (simp add: apply_credits_and_rebates_def credits_a1 credits_a2 credits_a3)
  have "fsub (3152519739159347 / 4503599627370496) (fl (7 / 10)) = 0"
    by (simp add: fsub_def fl_0_70)
  then have b: "apply_credits_and_rebates 1 (fl 0.1) (fl 0.2) (fl 0.7) = 0"
    by (simp add: apply_credits_and_rebates_def credits_b1 credits_b2)
  from a b show ?thesis by simp
qed

text \<open>
  C5. For taxable incomes \<open>0 \<le> T1 \<le> T2\<close>, the gross tax at \<open>T1\<close> is at most the gross
  tax at \<open>T2\<close>: for the flat model with a rate in \<open>[0, 1]\<close>, and for the progressive model
  on a table whose floats meet the structural contract in the arithmetic of the calculator
  (each \<open>fixed\<close> is what the formula of the tier below yields at this tier's threshold).
\<close>

theorem gross_tax_monotone:
  assumes "0 \<le> T1" "T1 \<le> T2"
  shows "(0 \<le> r \<and> r \<le> 1 \<longrightarrow> compute_company_tax T1 r \<le> compute_company_tax T2 r)
       \<and> (float_bracket_contract bs \<longrightarrow>
            compute_individual_tax_brackets T1 bs \<le> compute_individual_tax_brackets T2 bs)"
proof (intro conjI impI)
  assume r: "0 \<le> r \<and> r \<le> 1"
  show "compute_company_tax T1 r \<le> compute_company_tax T2 r"
  proof (cases "T1 \<le> 0")
    case True
    then have "compute_company_tax T1 r = 0" by (simp add: compute_company_tax_def)
    moreover have "0 \<le> fmul T2 r" using r assms by (intro fmul_nonneg) simp_all
    then have "0 \<le> compute_company_tax T2 r"
      by (simp add: compute_company_tax_def py_round2_nonneg)
    ultimately show ?thesis by simp
  next
    case False
    have "fmul T1 r \<le> fmul T2 r" using assms r by (intro fmul_mono) simp_all
    then show ?thesis using False assms
      by (simp add: compute_company_tax_def py_round2_mono)
  qed
next
  assume c: "float_bracket_contract bs"
  then have cf: "float_cumulative_fixed bs" and ra: "list_all (\<lambda>b. 0 \<le> rate b) bs"
    and fz: "case bs of [] \<Rightarrow> True | b # _ \<Rightarrow> fixed_or_zero b = 0"
    by (simp_all add: float_bracket_contract_def list_all_iff)
  show "compute_individual_tax_brackets T1 bs \<le> compute_individual_tax_brackets T2 bs"
  proof (cases "T1 \<le> 0")
    case True
    then show ?thesis
      using compute_individual_nonneg [of T2 bs] by (simp add: compute_individual_tax_brackets_def)
  next
    case False
    then show ?thesis
      using assms bracket_loop_from_zero_mono [OF cf ra fz assms(2)]
      by (simp add: compute_individual_tax_brackets_def py_round2_mono)
  qed
qed

theorem gross_tax_monotone_witness:
  "compute_company_tax 100 (fl 0.30) \<le> compute_company_tax 200 (fl 0.30)
   \<and> compute_individual_tax_brackets 4920000
        [\<lparr>threshold = 0, rate = 0, fixed = Some 0\<rparr>,
         \<lparr>threshold = 2820000, rate = fl 0.10, fixed = Some 0\<rparr>,
         \<lparr>threshold = 4020000, rate = fl 0.20, fixed = Some 120000\<rparr>,
         \<lparr>threshold = 4920000, rate = fl 0.30, fixed = Some 300000\<rparr>]
     \<le> compute_individual_tax_brackets 4920001
        [\<lparr>threshold = 0, rate = 0, fixed = Some 0\<rparr>,
         \<lparr>threshold = 2820000, rate = fl 0.10, fixed = Some 0\<rparr>,
         \<lparr>threshold = 4020000, rate = fl 0.20, fixed = Some 120000\<rparr>,
         \<lparr>threshold = 4920000, rate = fl 0.30, fixed = Some 300000\<rparr>]"
proof -
  let ?bs = "[\<lparr>threshold = 0, rate = 0, fixed = Some 0\<rparr>,
         \<lparr>threshold = 2820000, rate = fl 0.10, fixed = Some 0\<rparr>,
         \<lparr>threshold = 4020000, rate = fl 0.20, fixed = Some 120000\<rparr>,
         \<lparr>threshold = 4920000, rate = fl 0.30, fixed = Some (300000::real)\<rparr>]"
  have c: "float_bracket_contract ?bs"
    by (simp add: float_bracket_contract_def fixed_or_zero_def fsub_def fadd_def fl_numeral
        fmul_1200000_0_10 fmul_900000_0_20)
       (simp add: fl_0_10 fl_0_20 fl_0_30 fmul_def)
  have "(0::real) \<le> 100" "(100::real) \<le> 200" "(0::real) \<le> fl 0.30 \<and> fl 0.30 \<le> 1"
    by (simp_all add: fl_0_30)
  then have a: "compute_company_tax 100 (fl 0.30) \<le> compute_company_tax 200 (fl 0.30)"
    using gross_tax_monotone [of 100 200 "fl 0.30" ?bs] by blast
  have "(0::real) \<le> 4920000" "(4920000::real) \<le> 4920001" by simp_all
  then have b: "compute_individual_tax_brackets 4920000 ?bs \<le> compute_individual_tax_brackets 4920001 ?bs"
    using gross_tax_monotone [of 4920000 4920001 "fl 0.30" ?bs] c by blast
  from a b show ?thesis by blast
qed

text \<open>
  The table \<open>[(0, 0.1, 0), (1.05, 0, 0.105)]\<close> meets the contract as written, since
  \<open>0 + 0.1 * (1.05 - 0) = 0.105\<close>. Loaded as floats it taxes the income 1.05 at 0.11 (the
  product of the floats 1.05 and 0.1 lies above 0.105) and the income 1.06 at 0.10 (the
  float 0.105 lies below 0.105).
\<close>

theorem contract_table_not_monotone:
  "bracket_contract
     [\<lparr>threshold = 0, rate = 0.1, fixed = Some 0\<rparr>,
      \<lparr>threshold = 1.05, rate = 0, fixed = Some 0.105\<rparr>]
   \<and> 0 \<le> fl 1.05 \<and> fl 1.05 \<le> fl 1.06
   \<and> compute_individual_tax_brackets (fl 1.05)
        (map load_bracket [\<lparr>threshold = 0, rate = 0.1, fixed = Some 0\<rparr>,
                           \<lparr>threshold = 1.05, rate = 0, fixed = Some 0.105\<rparr>]) = fl 0.11
   \<and> compute_individual_tax_brackets (fl 1.06)
        (map load_bracket [\<lparr>threshold = 0, rate = 0.1, fixed = Some 0\<rparr>,
                           \<lparr>threshold = 1.05, rate = 0, fixed = Some 0.105\<rparr>]) = fl 0.10
   \<and> \<not> compute_individual_tax_brackets (fl 1.05)
        (map load_bracket [\<lparr>threshold = 0, rate = 0.1, fixed = Some 0\<rparr>,
                           \<lparr>threshold = 1.05, rate = 0, fixed = Some 0.105\<rparr>])
       \<le> compute_individual_tax_brackets (fl 1.06)
        (map load_bracket [\<lparr>threshold = 0, rate = 0.1, fixed = Some 0\<rparr>,
                           \<lparr>threshold = 1.05, rate = 0, fixed = Some 0.105\<rparr>])"
proof -
  have c: "bracket_contract
     [\<lparr>threshold = 0, rate = 0.1, fixed = Some 0\<rparr>,
      \<lparr>threshold = 1.05, rate = 0, fixed = Some 0.105\<rparr>]"
    by (simp add: bracket_contract_def fixed_or_zero_def)
  have l: "map load_bracket [\<lparr>threshold = 0, rate = 0.1, fixed = Some 0\<rparr>,
                            \<lparr>threshold = 1.05, rate = 0, fixed = Some 0.105\<rparr>]
           = [\<lparr>threshold = 0, rate = fl (1 / 10), fixed = Some 0\<rparr>,
              \<lparr>threshold = fl (21 / 20), rate = 0, fixed = Some (fl (21 / 200))\<rparr>]"
    by (simp add: load_bracket_def)
  have o: "0 \<le> fl (21 / 20)" "fl (21 / 20) \<le> fl (53 / 50)" "\<not> fl (11 / 100) \<le> fl (1 / 10)"
    by (simp_all add: fl_1_05 fl_1_06 fl_0_11 fl_0_10)
  show ?thesis
    unfolding l using c o by (simp add: loaded_table_at_1_05 loaded_table_at_1_06)
qed

text \<open>
  The default table does not meet the contract (its fixed amounts 360,000 and 1,830,000
  are not the tax accumulated below), and its gross tax falls just above 10,000,000.
\<close>

lemma default_brackets_breaks_contract:
  "\<not> float_bracket_contract default_brackets
   \<and> compute_individual_tax_brackets 10000000 default_brackets = 1884000
   \<and> compute_individual_tax_brackets 10000001 default_brackets = fl 1830000.40"
proof -
  have "\<not> float_cumulative_fixed default_brackets"
    by (simp add: default_brackets_def fixed_or_zero_def fsub_def fadd_def fl_numeral
        fmul_1200000_0_10 fmul_900000_0_20)
  then have a: "\<not> float_bracket_contract default_brackets"
    by (simp add: float_bracket_contract_def)
  have "bracket_loop 10000000 0 default_brackets
        = tier_tax (default_brackets ! Suc (Suc (Suc 0))) 10000000"
    by (rule bracket_loop_applicable_tier)
       (simp_all add: default_sorted default_nth3 default_nth4 default_length)
  then have b: "compute_individual_tax_brackets 10000000 default_brackets = 1884000"
    by (simp add: compute_individual_tax_brackets_def tier_tax_default_3_top py_round2_numeral)
  have "bracket_loop 10000001 0 default_brackets
        = tier_tax (default_brackets ! Suc (Suc (Suc (Suc 0)))) 10000001"
    by (rule bracket_loop_applicable_tier)
       (simp_all add: default_sorted default_nth4 default_length)
  then have l: "bracket_loop 10000001 0 default_brackets = 3929895934833459 / 2147483648"
    by (simp only: tier_tax_default_4)
  have "compute_individual_tax_brackets 10000001 default_brackets
        = py_round2 (max 0 (bracket_loop 10000001 0 default_brackets))"
    by (simp add: compute_individual_tax_brackets_def)
  also have "\<dots> = py_round2 (3929895934833459 / 2147483648)"
    unfolding l by simp
  also have "\<dots> = fl 1830000.40"
    by (simp add: py_round2_def round_half_even_def Let_def)
  finally have "compute_individual_tax_brackets 10000001 default_brackets = fl 1830000.40" .
  with a b show ?thesis by simp
qed

text \<open>
  C9. In account/amount mode the buckets are additive and not exclusive. Each of the five
  results is the float of the bucket's own column total plus the sum of the amounts its
  pattern selects; a row is selected for every bucket one of whose keywords occurs in its
  account name, in any case, so a row that matches the keywords of two buckets has its
  amount among the amounts summed for both. A row whose account name contains both "income"
  and "expense" is counted into the revenue total and into the opex total.
\<close>

theorem classifier_buckets_additive:
  assumes "cols df ''account'' = Some account_col" "cols df ''amount'' = Some amount_col"
    and "map_of df account_col = Some (Text accounts)"
    and "map_of df amount_col = Some (Numeric amounts)"
    and "length accounts = length amounts" "j < length accounts" "accounts ! j = Some a"
    and "auto_map_pl np df = Some (r, c, e, oi, oe)"
  shows "bucket_value np df ''revenue'' revenue_pattern accounts (Numeric amounts) = Some r
       \<and> bucket_value np df ''cogs'' cogs_pattern accounts (Numeric amounts) = Some c
       \<and> bucket_value np df ''operating_expenses'' opex_pattern accounts (Numeric amounts)
           = Some e
       \<and> bucket_value np df ''other_income'' other_income_pattern accounts (Numeric amounts)
           = Some oi
       \<and> bucket_value np df ''other_expenses'' other_expenses_pattern accounts
             (Numeric amounts) = Some oe
       \<and> (\<forall>K1 K2. str_contains K1 (Some a) \<and> str_contains K2 (Some a) \<longrightarrow>
             counts_row K1 accounts amounts j \<and> counts_row K2 accounts amounts j)
       \<and> (sublist ''income'' (py_lower a) \<and> sublist ''expense'' (py_lower a) \<longrightarrow>
             counts_row revenue_pattern accounts amounts j
             \<and> counts_row opex_pattern accounts amounts j)"
proof -
  have vals: "bucket_value np df ''revenue'' revenue_pattern accounts (Numeric amounts) = Some r
       \<and> bucket_value np df ''cogs'' cogs_pattern accounts (Numeric amounts) = Some c
       \<and> bucket_value np df ''operating_expenses'' opex_pattern accounts (Numeric amounts)
           = Some e
       \<and> bucket_value np df ''other_income'' other_income_pattern accounts (Numeric amounts)
           = Some oi
       \<and> bucket_value np df ''other_expenses'' other_expenses_pattern accounts
             (Numeric amounts) = Some oe"
    using assms(1,2,3,4,8) by (rule auto_map_pl_ledger)
  have counted: "counts_row K accounts amounts j" if "str_contains K (Some a)" for K
    using assms(5,6) that unfolding assms(7) [symmetric] by (rule matching_row_counted)
  have "counts_row revenue_pattern accounts amounts j"
    if "sublist ''income'' (py_lower a)"
    using that by (intro counted str_contains_word [of "''income''"]) (simp add: revenue_pattern_def)
  moreover have "counts_row opex_pattern accounts amounts j"
    if "sublist ''expense'' (py_lower a)"
    using that by (intro counted str_contains_word [of "''expense''"]) (simp add: opex_pattern_def)
  ultimately show ?thesis using vals counted by blast
qed

theorem classifier_buckets_additive_witness:
  "auto_map_pl exact_sums
     [(''Date'', Text [Some ''2024-01-31'', Some ''2024-02-29'', Some ''2024-03-31'']),
      ('' Account'', Text [Some ''Income:Sales'', Some ''COGS'', Some ''Income Tax Expense'']),
      (''AMOUNT'', Numeric [Some 250000000, Some 90000000, Some 500])]
     = Some (250000500, 90000000, 500, 0, 0)
   \<and> auto_map_pl exact_sums
     [(''Date'', Text [Some ''2024-01-31'', Some ''2024-02-29'']),
      ('' Account'', Text [Some ''Income:Sales'', Some ''COGS'']),
      (''AMOUNT'', Numeric [Some 250000000, Some 90000000])]
     = Some (250000000, 90000000, 0, 0, 0)
   \<and> counts_row revenue_pattern [Some ''Income:Sales'', Some ''COGS'', Some ''Income Tax Expense'']
        [Some 250000000, Some 90000000, Some 500] 2
   \<and> counts_row opex_pattern [Some ''Income:Sales'', Some ''COGS'', Some ''Income Tax Expense'']
        [Some 250000000, Some 90000000, Some 500] 2
   \<and> bucket_value exact_sums
        [(''Date'', Text [Some ''2024-01-31'', Some ''2024-02-29'', Some ''2024-03-31'']),
         ('' Account'', Text [Some ''Income:Sales'', Some ''COGS'', Some ''Income Tax Expense'']),
         (''AMOUNT'', Numeric [Some 250000000, Some 90000000, Some 500])]
        ''revenue'' revenue_pattern
        [Some ''Income:Sales'', Some ''COGS'', Some ''Income Tax Expense'']
        (Numeric [Some 250000000, Some 90000000, Some 500]) = Some 250000500
   \<and> bucket_value exact_sums
        [(''Date'', Text [Some ''2024-01-31'', Some ''2024-02-29'', Some ''2024-03-31'']),
         ('' Account'', Text [Some ''Income:Sales'', Some ''COGS'', Some ''Income Tax Expense'']),
         (''AMOUNT'', Numeric [Some 250000000, Some 90000000, Some 500])]
        ''operating_expenses'' opex_pattern
        [Some ''Income:Sales'', Some ''COGS'', Some ''Income Tax Expense'']
        (Numeric [Some 250000000, Some 90000000, Some 500]) = Some 500"
proof -
  let ?accounts = "[Some ''Income:Sales'', Some ''COGS'', Some ''Income Tax Expense'']"
  let ?amounts = "[Some (250000000::real), Some 90000000, Some 500]"
  let ?df = "[(''Date'', Text [Some ''2024-01-31'', Some ''2024-02-29'', Some ''2024-03-31'']),
              ('' Account'', Text ?accounts), (''AMOUNT'', Numeric ?amounts)]"
  have h1: "cols ?df ''account'' = Some '' Account''" by code_simp
  have h2: "cols ?df ''amount'' = Some ''AMOUNT''" by code_simp
  have h3: "map_of ?df '' Account'' = Some (Text ?accounts)" by code_simp
  have h4: "map_of ?df ''AMOUNT'' = Some (Numeric ?amounts)" by code_simp
  have h5: "length ?accounts = length ?amounts" by simp
  have h6: "2 < length ?accounts" by simp
  have h7: "?accounts ! 2 = Some ''Income Tax Expense''" by simp
  have h8: "auto_map_pl exact_sums ?df = Some (250000500, 90000000, 500, 0, 0)" by code_simp
  have s: "sublist ''income'' (py_lower ''Income Tax Expense'')
           \<and> sublist ''expense'' (py_lower ''Income Tax Expense'')" by code_simp
  have before: "auto_map_pl exact_sums
     [(''Date'', Text [Some ''2024-01-31'', Some ''2024-02-29'']),
      ('' Account'', Text [Some ''Income:Sales'', Some ''COGS'']),
      (''AMOUNT'', Numeric [Some 250000000, Some 90000000])]
     = Some (250000000, 90000000, 0, 0, 0)" by code_simp
  show ?thesis
    using classifier_buckets_additive [OF h1 h2 h3 h4 h5 h6 h7 h8] s h8 before by blast
qed

text \<open>
  C8. For a registered form code: when every field of the schema is in the payload with a
  value that coerces, the call succeeds and the record has the schema's fields, in the
  schema's order, with the coerced values; the result is the same for every insertion order
  of the payload; a payload that lacks a field of the schema fails, and the error names
  the first missing field when every field before it in the schema is present and coerces.
\<close>

theorem validate_and_build_return_contract:
  assumes "map_of URA_SCHEMAS form_code = Some schema"
  shows "(list_all (\<lambda>(f, t). coerced_cell payload f t \<noteq> None) schema \<longrightarrow>
           (\<exists>row. validate_and_build_return form_code payload = Inr row
              \<and> map fst row = map fst schema
              \<and> map (\<lambda>(f, c). Some c) row = map (\<lambda>(f, t). coerced_cell payload f t) schema))
       \<and> (distinct (map fst payload) \<and> mset payload' = mset payload \<longrightarrow>
            validate_and_build_return form_code payload'
            = validate_and_build_return form_code payload)
       \<and> (schema = pre @ (f, t) # post \<and> map_of payload f = None
            \<and> list_all (\<lambda>(g, u). coerced_cell payload g u \<noteq> None) pre \<longrightarrow>
            validate_and_build_return form_code payload
            = Inl (ValueError (''Missing required field: '' @ f)))
       \<and> ((\<exists>(f, t) \<in> set schema. map_of payload f = None) \<longrightarrow>
            (\<exists>e. validate_and_build_return form_code payload = Inl e))"
proof (intro conjI impI)
  assume "list_all (\<lambda>(f, t). coerced_cell payload f t \<noteq> None) schema"
  with assms show "\<exists>row. validate_and_build_return form_code payload = Inr row
              \<and> map fst row = map fst schema
              \<and> map (\<lambda>(f, c). Some c) row = map (\<lambda>(f, t). coerced_cell payload f t) schema"
    by (rule validate_complete)
next
  assume "distinct (map fst payload) \<and> mset payload' = mset payload"
  then have "distinct (map fst payload)" "mset payload' = mset payload" by blast+
  then show "validate_and_build_return form_code payload'
            = validate_and_build_return form_code payload"
    by (rule validate_order_independent)
next
  assume a: "schema = pre @ (f, t) # post \<and> map_of payload f = None
            \<and> list_all (\<lambda>(g, u). coerced_cell payload g u \<noteq> None) pre"
  then have "schema = pre @ (f, t) # post" "map_of payload f = None"
    "list_all (\<lambda>(g, u). coerced_cell payload g u \<noteq> None) pre" by blast+
  with assms show "validate_and_build_return form_code payload
            = Inl (ValueError (''Missing required field: '' @ f))"
    by (rule validate_first_missing)
next
  assume "\<exists>(f, t) \<in> set schema. map_of payload f = None"
  with assms show "\<exists>e. validate_and_build_return form_code payload = Inl e"
    by (rule validate_missing_fails)
qed

theorem validate_and_build_return_contract_witness:
  "validate_and_build_return ''DT-2001''
     (dt2001_payload ''1000123456'' ''Acme Ltd'' ''FY2024'' 2024 6000000 1000000 0 0 384000
        200000 0 0)
   = Inr [(''TIN'', CStr ''1000123456''), (''Taxpayer Name'', CStr ''Acme Ltd''),
          (''Period'', CStr ''FY2024''), (''Year'', CInt 2024),
          (''Business Income (UGX)'', CFloat (Finite 6000000)),
          (''Allowable Deductions (UGX)'', CFloat (Finite 1000000)),
          (''Capital Allowances (UGX)'', CFloat (Finite 0)),
          (''Exemptions (UGX)'', CFloat (Finite 0)),
          (''Taxable Income (UGX)'', CFloat (Finite 5000000)),
          (''Gross Tax (UGX)'', CFloat (Finite 384000)),
          (''WHT Credits (UGX)'', CFloat (Finite 200000)),
          (''Foreign Tax Credit (UGX)'', CFloat (Finite 0)),
          (''Rebates (UGX)'', CFloat (Finite 0)),
          (''Net Tax Payable (UGX)'', CFloat (Finite 184000))]
   \<and> validate_and_build_return ''DT-2001''
       (rev (dt2001_payload ''1000123456'' ''Acme Ltd'' ''FY2024'' 2024 6000000 1000000 0 0
               384000 200000 0 0))
     = validate_and_build_return ''DT-2001''
         (dt2001_payload ''1000123456'' ''Acme Ltd'' ''FY2024'' 2024 6000000 1000000 0 0
            384000 200000 0 0)
   \<and> validate_and_build_return ''DT-2001''
       (take 4 (dt2001_payload ''1000123456'' ''Acme Ltd'' ''FY2024'' 2024 6000000 1000000 0 0
                  384000 200000 0 0))
     = Inl (ValueError ''Missing required field: Business Income (UGX)'')"
proof -
  let ?schema = "[(''TIN'', ''str''), (''Taxpayer Name'', ''str''), (''Period'', ''str''),
        (''Year'', ''int''), (''Business Income (UGX)'', ''float''),
        (''Allowable Deductions (UGX)'', ''float''),
        (''Capital Allowances (UGX)'', ''float''),
        (''Exemptions (UGX)'', ''float''),
        (''Taxable Income (UGX)'', ''float''),
        (''Gross Tax (UGX)'', ''float''),
        (''WHT Credits (UGX)'', ''float''),
        (''Foreign Tax Credit (UGX)'', ''float''),
        (''Rebates (UGX)'', ''float''),
        (''Net Tax Payable (UGX)'', ''float'')]"
  let ?p = "[(''TIN'', PStr ''1000123456''), (''Taxpayer Name'', PStr ''Acme Ltd''),
             (''Period'', PStr ''FY2024''), (''Year'', PInt 2024),
             (''Business Income (UGX)'', PFloat 6000000),
             (''Allowable Deductions (UGX)'', PFloat 1000000),
             (''Capital Allowances (UGX)'', PFloat 0),
             (''Exemptions (UGX)'', PFloat 0),
             (''Taxable Income (UGX)'', PFloat 5000000),
             (''Gross Tax (UGX)'', PFloat 384000),
             (''WHT Credits (UGX)'', PFloat 200000),
             (''Foreign Tax Credit (UGX)'', PFloat 0),
             (''Rebates (UGX)'', PFloat 0),
             (''Net Tax Payable (UGX)'', PFloat 184000)]"
  have p: "dt2001_payload ''1000123456'' ''Acme Ltd'' ''FY2024'' 2024 6000000 1000000 0 0
             384000 200000 0 0 = ?p"
    by (simp add: dt2001_payload_def fsub_def fl_numeral)
  have reg: "map_of URA_SCHEMAS ''DT-2001'' = Some ?schema"
    by (simp add: URA_SCHEMAS_def)
  have ok: "list_all (\<lambda>(f, t). coerced_cell ?p f t \<noteq> None) ?schema"
    by code_simp
  have row: "\<exists>row. validate_and_build_return ''DT-2001'' ?p = Inr row
               \<and> map fst row = map fst ?schema
               \<and> map (\<lambda>(f, c). Some c) row = map (\<lambda>(f, t). coerced_cell ?p f t) ?schema"
    using validate_and_build_return_contract [OF reg, of ?p] ok by blast
  have a: "validate_and_build_return ''DT-2001'' ?p
   = Inr [(''TIN'', CStr ''1000123456''), (''Taxpayer Name'', CStr ''Acme Ltd''),
          (''Period'', CStr ''FY2024''), (''Year'', CInt 2024),
          (''Business Income (UGX)'', CFloat (Finite 6000000)),
          (''Allowable Deductions (UGX)'', CFloat (Finite 1000000)),
          (''Capital Allowances (UGX)'', CFloat (Finite 0)),
          (''Exemptions (UGX)'', CFloat (Finite 0)),
          (''Taxable Income (UGX)'', CFloat (Finite 5000000)),
          (''Gross Tax (UGX)'', CFloat (Finite 384000)),
          (''WHT Credits (UGX)'', CFloat (Finite 200000)),
          (''Foreign Tax Credit (UGX)'', CFloat (Finite 0)),
          (''Rebates (UGX)'', CFloat (Finite 0)),
          (''Net Tax Payable (UGX)'', CFloat (Finite 184000))]"
    by code_simp
  have d: "distinct (map fst ?p)" by code_simp
  have m: "mset (rev ?p) = mset ?p" by simp
  have b: "validate_and_build_return ''DT-2001'' (rev ?p) = validate_and_build_return ''DT-2001'' ?p"
    using validate_and_build_return_contract [OF reg, of ?p "rev ?p"] d m by blast
  have split: "?schema = take 4 ?schema @ (''Business Income (UGX)'', ''float'') # drop 5 ?schema"
    by simp
  have missing: "map_of (take 4 ?p) ''Business Income (UGX)'' = None" by code_simp
  have pre: "list_all (\<lambda>(g, u). coerced_cell (take 4 ?p) g u \<noteq> None) (take 4 ?schema)"
    by code_simp
  have c: "validate_and_build_return ''DT-2001'' (take 4 ?p)
     = Inl (ValueError (''Missing required field: '' @ ''Business Income (UGX)''))"
    using validate_and_build_return_contract [OF reg, of "take 4 ?p" _ "take 4 ?schema"
        "''Business Income (UGX)''" "''float''" "drop 5 ?schema"] split missing pre
    by blast
  from a b c show ?thesis unfolding p by simp
qed

text \<open>
  A payload for DT-2001 that stops after the year, the year given as the text 2024/25:
  the first missing field is the business income, and the error raised is that of
  \<^verbatim>\<open>int()\<close> on the year.
\<close>

theorem missing_field_not_named:
  "map_of [(''TIN'', PStr ''1000123456''), (''Taxpayer Name'', PStr ''Acme Ltd''),
           (''Period'', PStr ''FY2024''), (''Year'', PStr ''2024/25'')]
     ''Business Income (UGX)'' = None
   \<and> validate_and_build_return ''DT-2001''
       [(''TIN'', PStr ''1000123456''), (''Taxpayer Name'', PStr ''Acme Ltd''),
        (''Period'', PStr ''FY2024''), (''Year'', PStr ''2024/25'')]
     = Inl InvalidLiteral
   \<and> validate_and_build_return ''DT-2001''
       [(''TIN'', PStr ''1000123456''), (''Taxpayer Name'', PStr ''Acme Ltd''),
        (''Period'', PStr ''FY2024''), (''Year'', PStr ''2024/25'')]
     \<noteq> Inl (ValueError ''Missing required field: Business Income (UGX)'')"
  by code_simp

end
